theory Spec2Isabelle
  imports Complex_Main "HOL-Library.Char_ord" "HOL-Library.List_Lexorder"
    "HOL-Library.Product_Lexorder" "HOL-Library.Multiset"
begin

section \<open>Rendering numbers as the database and the JavaScript runtime do\<close>

text \<open>
  Decimal rendering of a natural number, most significant digit first, as \<open>CONCAT\<close> does for
  an integer argument and as JavaScript's \<open>String(n)\<close> does.
\<close>

definition digit_char :: "nat \<Rightarrow> char" where
  "digit_char n = ''0123456789'' ! (n mod 10)"

fun nat_digits :: "nat \<Rightarrow> string" where
  "nat_digits n =
     (if n < 10 then [digit_char n] else nat_digits (n div 10) @ [digit_char (n mod 10)])"

declare nat_digits.simps [simp del]

definition int_digits :: "int \<Rightarrow> string" where
  "int_digits i = (if i < 0 then CHR ''-'' # nat_digits (nat (- i)) else nat_digits (nat i))"

section \<open>The relational store (database/schema.sql)\<close>

text \<open>
  Timestamps are seconds on the database clock. A calendar date is the triple
  (year, month, day); with the lexicographic order on triples, \<open>\<le>\<close> is chronological order.
  A \<open>TIME\<close> value is a number of seconds since midnight. Column values and procedure
  arguments are not \<open>NULL\<close>, texts are compared character by character (the schema names
  no collation), and auto-increment ids are unbounded.
\<close>

type_synonym timestamp = nat
type_synonym date = "nat \<times> nat \<times> nat"
type_synonym time_of_day = nat

datatype status = present | absent

fun status_text :: "status \<Rightarrow> string" where
  "status_text present = ''present''"
| "status_text absent = ''absent''"

text \<open>Table \<open>students\<close>: \<open>student_id\<close> is \<open>UNIQUE NOT NULL\<close>, \<open>photo_path\<close> is nullable.\<close>

record student_row =
  s_id :: nat
  student_id :: string
  name :: string
  email :: string
  face_encoding :: string
  photo_path :: "string option"

text \<open>Table \<open>classes\<close>.\<close>

record class_row =
  c_id :: int
  class_name :: string
  start_time :: time_of_day
  end_time :: time_of_day
  class_date :: date

text \<open>
  Table \<open>attendance\<close>: \<open>FOREIGN KEY (class_id) REFERENCES classes(id)\<close> and
  \<open>UNIQUE KEY unique_student_class (student_id, class_id)\<close>. The column \<open>student_id\<close>
  carries no foreign key.
\<close>

record attendance_row =
  a_id :: nat
  a_student_id :: string
  a_class_id :: int
  a_status :: status
  marked_at :: timestamp
  updated_at :: timestamp

record database =
  students :: "student_row list"
  classes :: "class_row list"
  attendance :: "attendance_row list"
  activity_logs :: "string list"
  students_auto_increment :: nat
  attendance_auto_increment :: nat

datatype sql_error = ER_NO_REFERENCED_ROW | ER_DUP_ENTRY | ER_OTHER

definition class_exists :: "database \<Rightarrow> int \<Rightarrow> bool" where
  "class_exists db cid = (cid \<in> set (map c_id (classes db)))"

definition student_exists :: "database \<Rightarrow> string \<Rightarrow> bool" where
  "student_exists db sid = (sid \<in> set (map student_id (students db)))"

definition pair_key :: "attendance_row \<Rightarrow> string \<times> int" where
  "pair_key r = (a_student_id r, a_class_id r)"

definition rows_for :: "string \<Rightarrow> int \<Rightarrow> attendance_row list \<Rightarrow> attendance_row list" where
  "rows_for sid cid rows = filter (\<lambda>r. pair_key r = (sid, cid)) rows"

text \<open>The constraint \<open>unique_student_class\<close> as a predicate on the table.\<close>

definition unique_student_class :: "attendance_row list \<Rightarrow> bool" where
  "unique_student_class rows = distinct (map pair_key rows)"

subsection \<open>Triggers on \<open>attendance\<close>\<close>

definition attendance_insert_log :: "attendance_row \<Rightarrow> string list" where
  "attendance_insert_log new =
     [''New attendance record created: Student '' @ a_student_id new @ '' - '' @
      status_text (a_status new) @ '' for class ID '' @ int_digits (a_class_id new)]"

definition attendance_update_log :: "attendance_row \<Rightarrow> attendance_row \<Rightarrow> string list" where
  "attendance_update_log old new =
     (if a_status old \<noteq> a_status new then
        [''Attendance updated: Student '' @ a_student_id new @ '' changed from '' @
         status_text (a_status old) @ '' to '' @ status_text (a_status new) @
         '' for class ID '' @ int_digits (a_class_id new)]
      else [])"

subsection \<open>Procedure \<open>MarkAttendance\<close>\<close>

text \<open>
  \<open>ON DUPLICATE KEY UPDATE status = p_status, marked_at = CURRENT_TIMESTAMP\<close> applied to
  the row that holds the key. The column \<open>updated_at\<close> is
  \<open>ON UPDATE CURRENT_TIMESTAMP\<close>: it moves only when the statement changes the row.
\<close>

definition on_duplicate_update :: "status \<Rightarrow> timestamp \<Rightarrow> attendance_row \<Rightarrow> attendance_row" where
  "on_duplicate_update st now old =
     old\<lparr>a_status := st, marked_at := now,
         updated_at := (if a_status old \<noteq> st \<or> marked_at old \<noteq> now then now
                        else updated_at old)\<rparr>"

fun upsert_rows ::
  "string \<Rightarrow> int \<Rightarrow> status \<Rightarrow> timestamp \<Rightarrow> attendance_row list \<Rightarrow> attendance_row list" where
  "upsert_rows sid cid st now [] = []"
| "upsert_rows sid cid st now (r # rs) =
     (if pair_key r = (sid, cid) then on_duplicate_update st now r # rs
      else r # upsert_rows sid cid st now rs)"

text \<open>
  The body of the procedure, inside its transaction. The exit handler rolls back and
  re-signals, so a failing call returns the error and leaves the database as it was.
  The first statement inserts a row with the next auto-increment id and both timestamp
  defaults, or updates the row that already holds the unique key (the statement takes an
  auto-increment value either way); the foreign key on
  \<open>class_id\<close> rejects a class that does not exist. The second statement appends the
  procedure's own log line after the trigger's.
\<close>

definition MarkAttendance ::
  "string \<Rightarrow> int \<Rightarrow> status \<Rightarrow> timestamp \<Rightarrow> database \<Rightarrow> sql_error + database" where
  "MarkAttendance p_student_id p_class_id p_status now db =
     (let proc_log = [''Student '' @ p_student_id @ '' marked '' @ status_text p_status @
                      '' for class ID '' @ int_digits p_class_id]
      in if \<not> class_exists db p_class_id then Inl ER_NO_REFERENCED_ROW
         else case rows_for p_student_id p_class_id (attendance db) of
           [] \<Rightarrow>
             (let new = \<lparr>a_id = attendance_auto_increment db, a_student_id = p_student_id,
                         a_class_id = p_class_id, a_status = p_status,
                         marked_at = now, updated_at = now\<rparr>
              in Inr (db\<lparr>attendance := attendance db @ [new],
                         activity_logs := activity_logs db @ attendance_insert_log new @ proc_log,
                         attendance_auto_increment := Suc (attendance_auto_increment db)\<rparr>))
         | old # _ \<Rightarrow>
             Inr (db\<lparr>attendance := upsert_rows p_student_id p_class_id p_status now (attendance db),
                     activity_logs := activity_logs db @
                        attendance_update_log old (on_duplicate_update p_status now old) @ proc_log,
                     attendance_auto_increment := Suc (attendance_auto_increment db)\<rparr>))"

text \<open>A sequence of calls, each with its own clock reading; a failed call changes nothing.\<close>

fun mark_all :: "(string \<times> int \<times> status \<times> timestamp) list \<Rightarrow> database \<Rightarrow> database" where
  "mark_all [] db = db"
| "mark_all ((sid, cid, st, now) # calls) db =
     (case MarkAttendance sid cid st now db of
        Inl _ \<Rightarrow> mark_all calls db
      | Inr db' \<Rightarrow> mark_all calls db')"

text \<open>A store with one class and no student, used for concrete runs.\<close>

definition demo_class :: class_row where
  "demo_class = \<lparr>c_id = 1, class_name = ''Mathematics 101'', start_time = 32400,
                  end_time = 37800, class_date = (2024, 3, 1)\<rparr>"

definition demo_db :: database where
  "demo_db = \<lparr>students = [], classes = [demo_class], attendance = [], activity_logs = [],
               students_auto_increment = 1, attendance_auto_increment = 1\<rparr>"

section \<open>Values of the JavaScript runtime (node-backend/server.js)\<close>

text \<open>
  A field of a request body is any JSON value; the handlers only test such a value for
  truthiness, call string methods on it or pass it on, so objects and arrays are one
  constructor.
\<close>

datatype js_value = Undefined | Null | Boolean bool | Number int | String string | Object

text \<open>\<open>falsy v\<close> is the value of \<open>!v\<close>.\<close>

fun falsy :: "js_value \<Rightarrow> bool" where
  "falsy Undefined = True"
| "falsy Null = True"
| "falsy (Boolean b) = (b = False)"
| "falsy (Number n) = (n = 0)"
| "falsy (String s) = (s = [])"
| "falsy Object = False"

text \<open>
  What a handler sends: \<open>res.json(x)\<close> is \<open>json 200 x\<close>,
  \<open>res.status(c).json({ error: m })\<close> is \<open>json_error c m\<close>, and
  \<open>res.status(c).json({ errors: ms })\<close> is \<open>json_errors c ms\<close>.
\<close>

datatype 'a response = json nat 'a | json_error nat string | json_errors nat "string list"

section \<open>The WebSocket hub\<close>

datatype ready_state = CONNECTING | OPEN | CLOSING | CLOSED

text \<open>
  The messages the server sends. A socket's \<open>sent\<close> list holds the messages handed to it,
  oldest first; each stands for its \<open>JSON.stringify\<close> text.
\<close>

datatype ws_message =
    connection_established timestamp
  | pong
  | attendance_marked js_value js_value js_value js_value timestamp

record websocket =
  ws_id :: nat
  readyState :: ready_state
  terminalId :: js_value
  sent :: "ws_message list"

datatype ws_error = WebSocket_is_not_open ready_state

text \<open>
  \<open>ws.send\<close> of the \<open>ws\<close> library, called without a callback: on a socket that is not
  open it raises (the strictest behaviour among the library's versions).
\<close>

definition ws_send :: "websocket \<Rightarrow> ws_message \<Rightarrow> ws_error + websocket" where
  "ws_send ws data =
     (if readyState ws = OPEN then Inr (ws\<lparr>sent := sent ws @ [data]\<rparr>)
      else Inl (WebSocket_is_not_open (readyState ws)))"

text \<open>
  \<open>connectedClients\<close> is a \<open>Set\<close>, iterated in insertion order: the list of the sockets
  that the connection handler has added and not yet deleted.

  \<open>broadcast\<close>: the \<open>forEach\<close> over the set. An exception raised by a callback would end
  the iteration and reach the caller, which is the \<open>Inl\<close> result.
\<close>

fun broadcast :: "ws_message \<Rightarrow> websocket list \<Rightarrow> ws_error + websocket list" where
  "broadcast message [] = Inr []"
| "broadcast message (ws # rest) =
     (if readyState ws = OPEN then
        (case ws_send ws message of
           Inl e \<Rightarrow> Inl e
         | Inr ws' \<Rightarrow>
             (case broadcast message rest of
                Inl e \<Rightarrow> Inl e
              | Inr rest' \<Rightarrow> Inr (ws' # rest')))
      else
        (case broadcast message rest of
           Inl e \<Rightarrow> Inl e
         | Inr rest' \<Rightarrow> Inr (ws # rest')))"

section \<open>Frame intake: \<open>POST /api/process-frame\<close>\<close>

record frame_request =
  image :: js_value
  class_id :: js_value
  terminal_id :: js_value

text \<open>
  The recognizer's standard output, as the \<open>try\<close> block of the close handler sees it:
  \<open>unusable\<close> when the block throws (\<open>JSON.parse\<close> rejects the text, or the parsed value
  has not the shape the block reads), else the parsed result with the
  (\<open>student_name\<close>, \<open>student_id\<close>) pairs of its \<open>attendance_marked\<close> array (empty when
  the property is missing or empty).
\<close>

datatype recognizer_output = unusable | recognized "(js_value \<times> js_value) list"

text \<open>The places of the handler that send a response.\<close>

datatype path = validation_path | catch_path | close_path | timeout_path

text \<open>
  What the runtime decides in the synchronous part of the handler: whether writing the
  frame file throws (\<open>mkdirSync\<close>, \<open>writeFileSync\<close>), and what \<open>spawn\<close> does. It starts
  the child process, or it throws synchronously (as it does on an argument it rejects, or
  on \<open>E2BIG\<close>), or it returns a child that emits \<open>error\<close> on the next tick (as it does
  when the program is not found). The handler registers no listener for \<open>error\<close>, so that
  event is an uncaught exception and ends the server process.
\<close>

datatype spawn_result = child_started | spawn_threw | child_emits_error

record runtime =
  writeFileSync_throws :: bool
  spawn :: spawn_result

text \<open>
  The state of one request: the transient file, the child process, the pending timer, the
  two flags the callbacks test, every response sent so far with the path that sent it and
  the time in milliseconds since the timer was set, the connected sockets, and whether the
  server process has ended.
\<close>

record frame_state =
  temp_file_exists :: bool
  server_crashed :: bool
  child_spawned :: bool
  child_killed :: bool
  timeout_pending :: bool
  responseCompleted :: bool
  headersSent :: bool
  answered :: "(path \<times> nat \<times> recognizer_output response) list"
  hub :: "websocket list"

definition respond ::
  "path \<Rightarrow> nat \<Rightarrow> recognizer_output response \<Rightarrow> frame_state \<Rightarrow> frame_state" where
  "respond p t r st = st\<lparr>headersSent := True, answered := answered st @ [(p, t, r)]\<rparr>"

definition frame_timeout_ms :: nat where
  "frame_timeout_ms = 10000"

text \<open>
  The body of the handler up to \<open>setTimeout\<close>. \<open>image.replace\<close> is a function only when
  \<open>image\<close> is a string; any exception reaches the \<open>catch\<close> of the handler, which answers
  500 and touches nothing else.
\<close>

definition process_frame_sync :: "frame_request \<Rightarrow> runtime \<Rightarrow> websocket list \<Rightarrow> frame_state" where
  "process_frame_sync req rt clients =
     (let st = \<lparr>temp_file_exists = False, server_crashed = False, child_spawned = False,
                child_killed = False,
                timeout_pending = False, responseCompleted = False, headersSent = False,
                answered = [], hub = clients\<rparr>
      in if falsy (image req) \<or> falsy (class_id req) \<or> falsy (terminal_id req) then
           respond validation_path 0 (json_error 400 ''Missing required parameters'') st
         else
           (case image req of
              String base64 \<Rightarrow>
                if writeFileSync_throws rt then
                  respond catch_path 0 (json_error 500 ''Failed to process frame'') st
                else
                  (case spawn rt of
                     spawn_threw \<Rightarrow>
                       respond catch_path 0 (json_error 500 ''Failed to process frame'')
                         (st\<lparr>temp_file_exists := True\<rparr>)
                   | child_emits_error \<Rightarrow>
                       st\<lparr>temp_file_exists := True, server_crashed := True\<rparr>
                   | child_started \<Rightarrow>
                       st\<lparr>temp_file_exists := True, child_spawned := True,
                          timeout_pending := True\<rparr>)
            | _ \<Rightarrow> respond catch_path 0 (json_error 500 ''Failed to process frame'') st))"

text \<open>\<open>result.attendance_marked.forEach(attendance => broadcast(...))\<close>.\<close>

fun broadcast_each :: "ws_message list \<Rightarrow> websocket list \<Rightarrow> ws_error + websocket list" where
  "broadcast_each [] clients = Inr clients"
| "broadcast_each (m # ms) clients =
     (case broadcast m clients of
        Inl e \<Rightarrow> Inl e
      | Inr clients' \<Rightarrow> broadcast_each ms clients')"

text \<open>The \<open>close\<close> listener of the child process, run at time \<open>t\<close> with the exit code.\<close>

definition on_close ::
  "frame_request \<Rightarrow> nat \<Rightarrow> int option \<Rightarrow> recognizer_output \<Rightarrow> frame_state \<Rightarrow> frame_state" where
  "on_close req t code output st0 =
     (let st = st0\<lparr>temp_file_exists := False\<rparr>
      in if headersSent st \<or> responseCompleted st then st
         else
           (let st = st\<lparr>responseCompleted := True, timeout_pending := False\<rparr>
            in if code = Some 0 then
                 (case output of
                    unusable \<Rightarrow>
                      respond close_path t (json_error 500 ''Failed to process frame'') st
                  | recognized marked \<Rightarrow>
                      (case broadcast_each
                              (map (\<lambda>(student_name, student_id).
                                      attendance_marked student_name student_id
                                        (class_id req) (terminal_id req) t) marked)
                              (hub st) of
                         Inl e \<Rightarrow>
                           respond close_path t (json_error 500 ''Failed to process frame'') st
                       | Inr clients \<Rightarrow>
                           respond close_path t (json 200 output) (st\<lparr>hub := clients\<rparr>)))
               else
                 respond close_path t (json_error 500 ''Face recognition processing failed'') st))"

text \<open>The callback of \<open>setTimeout\<close>, run at time \<open>t\<close>.\<close>

definition on_timeout :: "nat \<Rightarrow> frame_state \<Rightarrow> frame_state" where
  "on_timeout t st0 =
     (let st = st0\<lparr>timeout_pending := False\<rparr>
      in if headersSent st \<or> responseCompleted st then st
         else
           respond timeout_path t (json_error 500 ''Frame processing timeout'')
             (st\<lparr>responseCompleted := True, child_killed := True, temp_file_exists := False\<rparr>))"

text \<open>
  The event loop delivers the two events in some order; a timer that \<open>clearTimeout\<close> has
  cancelled does not run its callback.
\<close>

datatype frame_event = process_closed nat "int option" recognizer_output | timer_fired nat

fun frame_step :: "frame_request \<Rightarrow> frame_state \<Rightarrow> frame_event \<Rightarrow> frame_state" where
  "frame_step req st (process_closed t code output) = on_close req t code output st"
| "frame_step req st (timer_fired t) = (if timeout_pending st then on_timeout t st else st)"

definition process_frame ::
  "frame_request \<Rightarrow> runtime \<Rightarrow> websocket list \<Rightarrow> frame_event list \<Rightarrow> frame_state" where
  "process_frame req rt clients events =
     (let st = process_frame_sync req rt clients
      in if child_spawned st then foldl (frame_step req) st events else st)"

text \<open>
  The events of one request, from the behaviour of the recognizer process: it closes by
  itself after \<open>exits_after\<close> milliseconds, or never; the timer fires after
  \<open>frame_timeout_ms\<close> unless the process closed before; a process that ends after
  \<open>kill\<close> closes some milliseconds later with no exit code.
\<close>

record child_process =
  exits_after :: "nat option"
  exit_code :: int
  stdout :: recognizer_output
  closes_after_kill :: "nat option"

definition timeline :: "child_process \<Rightarrow> frame_event list" where
  "timeline child =
     (let killed = timer_fired frame_timeout_ms #
                   (case closes_after_kill child of
                      None \<Rightarrow> []
                    | Some d \<Rightarrow> [process_closed (frame_timeout_ms + d) None (stdout child)])
      in case exits_after child of
           None \<Rightarrow> killed
         | Some t \<Rightarrow>
             if t < frame_timeout_ms then [process_closed t (Some (exit_code child)) (stdout child)]
             else killed)"

text \<open>A request passes the handler's validation when none of the three fields is falsy.\<close>

definition valid_request :: "frame_request \<Rightarrow> bool" where
  "valid_request req = (\<not> (falsy (image req) \<or> falsy (class_id req) \<or> falsy (terminal_id req)))"

text \<open>
  The two states of a request whose recognizer is running: no response yet, with the
  timer pending; or answered once by path \<open>p\<close> at time \<open>t\<close>, with the file removed.
\<close>

definition idle :: "frame_state \<Rightarrow> bool" where
  "idle st = (answered st = [] \<and> \<not> headersSent st \<and> \<not> responseCompleted st \<and> timeout_pending st)"

definition done_by :: "path \<Rightarrow> nat \<Rightarrow> frame_state \<Rightarrow> bool" where
  "done_by p t st = ((\<exists>r. answered st = [(p, t, r)]) \<and> headersSent st \<and> responseCompleted st
      \<and> \<not> temp_file_exists st \<and> \<not> timeout_pending st)"

text \<open>Concrete requests, processes and sockets for the runs below.\<close>

definition demo_request :: frame_request where
  "demo_request = \<lparr>image = String ''data:image/jpeg;base64,AAAA'', class_id = Number 1,
                    terminal_id = String ''T1''\<rparr>"

definition slow_child :: child_process where
  "slow_child = \<lparr>exits_after = None, exit_code = 0, stdout = unusable,
                 closes_after_kill = Some 15\<rparr>"

definition quick_child :: child_process where
  "quick_child = \<lparr>exits_after = Some 800, exit_code = 0,
                  stdout = recognized [(String ''John Doe'', String ''STD001'')],
                  closes_after_kill = None\<rparr>"

definition demo_runtime :: runtime where
  "demo_runtime = \<lparr>writeFileSync_throws = False, spawn = child_started\<rparr>"

definition demo_socket :: websocket where
  "demo_socket = \<lparr>ws_id = 1, readyState = OPEN, terminalId = String ''T1'', sent = []\<rparr>"

section \<open>Creating students: \<open>POST /api/students\<close> and \<open>POST /api/students/with-photo\<close>\<close>

text \<open>Trigger \<open>student_insert_log\<close>.\<close>

definition student_insert_log :: "student_row \<Rightarrow> string list" where
  "student_insert_log new =
     [''New student registered: '' @ name new @ '' ('' @ student_id new @ '')'']"

text \<open>
  \<open>INSERT INTO students (student_id, name, email, face_encoding [, photo_path])\<close>: the
  unique key on \<open>student_id\<close> rejects a duplicate; a stored row gets the next id.
\<close>

definition INSERT_student ::
  "string \<Rightarrow> string \<Rightarrow> string \<Rightarrow> string \<Rightarrow> string option \<Rightarrow> database \<Rightarrow> sql_error + nat \<times> database" where
  "INSERT_student sid nm em enc photo db =
     (if student_exists db sid then Inl ER_DUP_ENTRY
      else
        (let new = \<lparr>s_id = students_auto_increment db, student_id = sid, name = nm, email = em,
                    face_encoding = enc, photo_path = photo\<rparr>
         in Inr (s_id new,
                 db\<lparr>students := students db @ [new],
                    activity_logs := activity_logs db @ student_insert_log new,
                    students_auto_increment := Suc (students_auto_increment db)\<rparr>)))"

text \<open>
  The fields of the request body are text; \<open>None\<close> is a field that is not there, which the
  checks treat as the empty text.
\<close>

record student_form =
  form_student_id :: "string option"
  form_name :: "string option"
  form_email :: "string option"

definition field_text :: "string option \<Rightarrow> string" where
  "field_text v = (case v of None \<Rightarrow> [] | Some s \<Rightarrow> s)"

definition notEmpty :: "string option \<Rightarrow> bool" where
  "notEmpty v = (field_text v \<noteq> [])"

definition missing :: "string option \<Rightarrow> bool" where
  "missing v = (field_text v = [])"

text \<open>
  What the runtime decides: whether \<open>pool.getConnection\<close> rejects, whether
  \<open>connection.execute\<close> rejects with an error other than a duplicate key, and whether
  starting the encoding script throws.
\<close>

record db_runtime =
  getConnection_rejects :: bool
  execute_rejects :: bool
  spawn_python_throws :: bool

text \<open>
  \<open>POST /api/students\<close>. \<open>isEmail\<close> is the validator's e-mail test. The handler returns
  the response and the database; the payload of a success is \<open>insertId\<close>.
\<close>

definition post_students ::
  "(string \<Rightarrow> bool) \<Rightarrow> db_runtime \<Rightarrow> student_form \<Rightarrow> database \<Rightarrow> nat response \<times> database" where
  "post_students isEmail rt form db =
     (let errors =
            (if notEmpty (form_student_id form) then [] else [''Student ID is required'']) @
            (if notEmpty (form_name form) then [] else [''Name is required'']) @
            (if form_email form \<noteq> None \<and> isEmail (field_text (form_email form)) then []
             else [''Valid email is required''])
      in if errors \<noteq> [] then (json_errors 400 errors, db)
         else if getConnection_rejects rt \<or> execute_rejects rt then
           (json_error 500 ''Failed to add student'', db)
         else
           (case INSERT_student (field_text (form_student_id form)) (field_text (form_name form))
                   (field_text (form_email form)) [] None db of
              Inl ER_DUP_ENTRY \<Rightarrow> (json_error 400 ''Student ID already exists'', db)
            | Inl _ \<Rightarrow> (json_error 500 ''Failed to add student'', db)
            | Inr (insertId, db') \<Rightarrow> (json 200 insertId, db')))"

text \<open>
  \<open>POST /api/students/with-photo\<close>. \<open>upload\<close> is \<open>req.file.path\<close>, the photo the upload
  middleware has stored, and \<open>files\<close> the paths on disk. When the insert fails the inner
  \<open>catch\<close> removes the photo and throws again. The encoding script runs outside the
  backend, after the row is stored, and writes the encoding through its own connection.
\<close>

definition post_students_with_photo ::
  "db_runtime \<Rightarrow> student_form \<Rightarrow> string option \<Rightarrow> database \<Rightarrow> string set \<Rightarrow>
   nat response \<times> database \<times> string set" where
  "post_students_with_photo rt form upload db files =
     (if missing (form_student_id form) \<or> missing (form_name form) \<or>
         missing (form_email form) then
        (json_error 400 ''Student ID, name, and email are required'', db, files)
      else
        (case upload of
           None \<Rightarrow> (json_error 400 ''Photo is required'', db, files)
         | Some photoPath \<Rightarrow>
             if getConnection_rejects rt then
               (json_error 500 ''Failed to add student with photo'', db, files)
             else if execute_rejects rt then
               (json_error 500 ''Failed to add student with photo'', db, files - {photoPath})
             else
               (case INSERT_student (field_text (form_student_id form))
                       (field_text (form_name form)) (field_text (form_email form)) []
                       (Some photoPath) db of
                  Inl ER_DUP_ENTRY \<Rightarrow>
                    (json_error 400 ''Student ID already exists'', db, files - {photoPath})
                | Inl _ \<Rightarrow>
                    (json_error 500 ''Failed to add student with photo'', db, files - {photoPath})
                | Inr (insertId, db') \<Rightarrow>
                    if spawn_python_throws rt then
                      (json_error 500 ''Failed to add student with photo'', db',
                       files - {photoPath})
                    else (json 200 insertId, db', files))))"

text \<open>
  The two outcomes of a creation request: nothing is stored and an error is answered, or
  one row is appended for the submitted student id, with an empty face encoding.
\<close>

definition not_created :: "nat response \<Rightarrow> database \<Rightarrow> database \<Rightarrow> bool" where
  "not_created res db db' =
     (db' = db \<and> ((\<exists>c m. res = json_error c m) \<or> (\<exists>c ms. res = json_errors c ms)))"

definition created_with_empty_encoding ::
  "student_form \<Rightarrow> nat response \<Rightarrow> database \<Rightarrow> database \<Rightarrow> bool" where
  "created_with_empty_encoding form res db db' =
     (\<exists>r. students db' = students db @ [r] \<and> face_encoding r = [] \<and>
          student_id r = field_text (form_student_id form) \<and>
          (res = json 200 (s_id r) \<or> res = json_error 500 ''Failed to add student with photo''))"

section \<open>Authentication: \<open>POST /api/auth/login\<close> and \<open>authenticateToken\<close>\<close>

text \<open>The configuration the two pieces of code read from \<open>process.env\<close>.\<close>

record environment =
  ADMIN_USERNAME :: "string option"
  ADMIN_PASSWORD :: "string option"
  JWT_SECRET :: "string option"

text \<open>
  The \<open>jsonwebtoken\<close> library, after its documentation. A token carries its claims and a
  signature; the signature is symbolic, the key and the claims it was computed from, so
  that a signature verifies under a key exactly when it was made with that key for those
  claims. A piece of text that is no token is \<open>not_a_jwt\<close>. Times are seconds.
\<close>

record jwt_claims =
  claim_username :: string
  claim_role :: string
  jwt_iat :: nat
  jwt_exp :: nat

datatype signature = HS256 string jwt_claims

datatype token_text = not_a_jwt string | jwt jwt_claims signature

datatype jwt_error =
    secretOrPrivateKey_must_have_a_value
  | secret_or_public_key_must_be_provided
  | jwt_malformed
  | invalid_signature
  | jwt_expired

text \<open>Both \<open>sign\<close> and \<open>verify\<close> refuse a secret that is undefined or empty.\<close>

definition usable_secret :: "string option \<Rightarrow> bool" where
  "usable_secret secret = (field_text secret \<noteq> [])"

definition jwt_sign ::
  "string \<Rightarrow> string \<Rightarrow> string option \<Rightarrow> nat \<Rightarrow> nat \<Rightarrow> jwt_error + token_text" where
  "jwt_sign username role secret expiresIn now =
     (if usable_secret secret then
        (let claims = \<lparr>claim_username = username, claim_role = role, jwt_iat = now,
                       jwt_exp = now + expiresIn\<rparr>
         in Inr (jwt claims (HS256 (field_text secret) claims)))
      else Inl secretOrPrivateKey_must_have_a_value)"

definition jwt_verify :: "token_text \<Rightarrow> string option \<Rightarrow> nat \<Rightarrow> jwt_error + jwt_claims" where
  "jwt_verify token secret now =
     (case token of
        not_a_jwt s \<Rightarrow> Inl jwt_malformed
      | jwt claims sg \<Rightarrow>
          if usable_secret secret then
            (if sg = HS256 (field_text secret) claims then
               (if jwt_exp claims \<le> now then Inl jwt_expired else Inr claims)
             else Inl invalid_signature)
          else Inl secret_or_public_key_must_be_provided)"

text \<open>
  The \<open>Authorization\<close> header is given by its pieces between single spaces, the value of
  \<open>authHeader.split(' ')\<close>; \<open>None\<close> is a request without the header. \<open>split_1\<close> is the
  element at index 1, when there is one.
\<close>

definition split_1 :: "token_text list option \<Rightarrow> token_text option" where
  "split_1 authHeader =
     (case authHeader of
        None \<Rightarrow> None
      | Some pieces \<Rightarrow> if 1 < length pieces then Some (pieces ! 1) else None)"

text \<open>
  The middleware: \<open>Inr user\<close> is the call of \<open>next()\<close> with \<open>req.user\<close> set, \<open>Inl\<close> the
  response that ends the request. \<open>!token\<close> holds for a missing piece and for the empty one.
\<close>

definition authenticateToken ::
  "environment \<Rightarrow> nat \<Rightarrow> token_text list option \<Rightarrow> unit response + jwt_claims" where
  "authenticateToken env now authHeader =
     (case split_1 authHeader of
        None \<Rightarrow> Inl (json_error 401 ''Access token required'')
      | Some token \<Rightarrow>
          if token = not_a_jwt [] then Inl (json_error 401 ''Access token required'')
          else
            (case jwt_verify token (JWT_SECRET env) now of
               Inl err \<Rightarrow> Inl (json_error 403 ''Invalid token'')
             | Inr user \<Rightarrow> Inr user))"

text \<open>
  The login handler. The two \<open>notEmpty\<close> validators run first. The handler also appends a
  line to the activity log through \<open>logActivity\<close>, which catches its own errors; the log is
  left out here.
\<close>

record login_body =
  body_username :: "string option"
  body_password :: "string option"

datatype login_payload = login_success token_text string string

definition post_auth_login :: "environment \<Rightarrow> nat \<Rightarrow> login_body \<Rightarrow> login_payload response" where
  "post_auth_login env now body =
     (let errors =
            (if notEmpty (body_username body) then [] else [''Username is required'']) @
            (if notEmpty (body_password body) then [] else [''Password is required''])
      in if errors \<noteq> [] then json_errors 400 errors
         else if body_username body = ADMIN_USERNAME env \<and>
                 body_password body = ADMIN_PASSWORD env then
           (case jwt_sign (field_text (body_username body)) ''admin'' (JWT_SECRET env) 86400 now of
              Inl err \<Rightarrow> json_error 500 ''Internal server error''
            | Inr token \<Rightarrow>
                json 200 (login_success token (field_text (body_username body)) ''admin''))
         else json_error 401 ''Invalid credentials'')"

text \<open>The token in a response, if it carries one.\<close>

definition token_issued :: "login_payload response \<Rightarrow> token_text option" where
  "token_issued res =
     (case res of json c (login_success token u r) \<Rightarrow> Some token | _ \<Rightarrow> None)"

definition credentials_match :: "environment \<Rightarrow> login_body \<Rightarrow> bool" where
  "credentials_match env body =
     (body_username body = ADMIN_USERNAME env \<and> body_password body = ADMIN_PASSWORD env)"

text \<open>
  A token is valid at time \<open>now\<close> when it is signed with the configured secret for its own
  claims and its expiry lies after \<open>now\<close>. A request presents a token when the piece at
  index 1 of its header is there and is not empty.
\<close>

definition valid_token :: "environment \<Rightarrow> nat \<Rightarrow> token_text \<Rightarrow> bool" where
  "valid_token env now token =
     (\<exists>claims. token = jwt claims (HS256 (field_text (JWT_SECRET env)) claims) \<and>
        usable_secret (JWT_SECRET env) \<and> now < jwt_exp claims)"

definition token_present :: "token_text list option \<Rightarrow> bool" where
  "token_present authHeader =
     (\<exists>token. split_1 authHeader = Some token \<and> token \<noteq> not_a_jwt [])"

definition bearer :: "token_text \<Rightarrow> token_text list option" where
  "bearer token = Some [not_a_jwt ''Bearer'', token]"

text \<open>A configuration, three login bodies and two tokens for the concrete runs.\<close>

definition demo_env :: environment where
  "demo_env = \<lparr>ADMIN_USERNAME = Some ''admin'', ADMIN_PASSWORD = Some ''admin123'',
                JWT_SECRET = Some ''change-me''\<rparr>"

definition good_login :: login_body where
  "good_login = \<lparr>body_username = Some ''admin'', body_password = Some ''admin123''\<rparr>"

definition wrong_password :: login_body where
  "wrong_password = \<lparr>body_username = Some ''admin'', body_password = Some ''guess''\<rparr>"

definition no_password :: login_body where
  "no_password = \<lparr>body_username = Some ''admin'', body_password = None\<rparr>"

definition demo_claims :: jwt_claims where
  "demo_claims = \<lparr>claim_username = ''admin'', claim_role = ''admin'', jwt_iat = 1000,
                   jwt_exp = 87400\<rparr>"

definition demo_token :: token_text where
  "demo_token = jwt demo_claims (HS256 ''change-me'' demo_claims)"

definition forged_token :: token_text where
  "forged_token = jwt demo_claims (HS256 ''guessed-key'' demo_claims)"

section \<open>Attendance rates: \<open>GET /api/students\<close> and \<open>GET /api/dashboard/stats\<close>\<close>

text \<open>
  A JavaScript number is an IEEE 754 binary64 value, here the real number it stands for.
  \<open>binary64 x\<close> is the number nearest to \<open>x\<close>, the one with the even significand of two
  that are equally near: \<open>normal_exponent\<close> gives the power of two at or below
  \<open>\<bar>x\<bar>\<close>, which fixes the spacing \<open>2 powi (normal_exponent \<bar>x\<bar> - 52)\<close> of the
  numbers with 53 significant bits around \<open>x\<close>, and \<open>round_half_even\<close> rounds to a
  multiple of that spacing. The bounds of the exponent (subnormal numbers and overflow) are
  left out: the operands below are counts of rows, their quotient and its product with 100,
  which are 0 or lie between \<open>2 powi (- 53)\<close> and \<open>2 ^ 60\<close>.
\<close>

definition round_half_even :: "real \<Rightarrow> int" where
  "round_half_even y =
     (let n = \<lfloor>y\<rfloor>; r = y - of_int n
      in if r < 1 / 2 then n else if 1 / 2 < r then n + 1 else if even n then n else n + 1)"

function normal_exponent :: "real \<Rightarrow> int" where
  "normal_exponent x =
     (if x \<le> 0 then 0
      else if x < 1 then normal_exponent (2 * x) - 1
      else if 2 \<le> x then normal_exponent (x / 2) + 1
      else 0)"
  by pat_completeness auto

termination normal_exponent
proof (relation "measure (\<lambda>x. nat \<bar>\<lfloor>log 2 x\<rfloor>\<bar>)")
  show "wf (measure (\<lambda>x. nat \<bar>\<lfloor>log 2 x\<rfloor>\<bar>))" by simp
next
  fix x :: real
  assume "\<not> x \<le> 0" "x < 1"
  then have x: "0 < x" and "log 2 x < 0" by simp_all
  then have "\<lfloor>log 2 x\<rfloor> < 0" by linarith
  moreover have "\<lfloor>log 2 (2 * x)\<rfloor> = \<lfloor>log 2 x\<rfloor> + 1"
    using x by (simp add: log_mult)
  ultimately show "(2 * x, x) \<in> measure (\<lambda>x. nat \<bar>\<lfloor>log 2 x\<rfloor>\<bar>)"
    unfolding in_measure by linarith
next
  fix x :: real
  assume "\<not> x \<le> 0" "\<not> x < 1" "2 \<le> x"
  then have x: "0 < x" and "1 \<le> log 2 x" by (simp_all add: le_log_iff)
  then have "1 \<le> \<lfloor>log 2 x\<rfloor>" by linarith
  moreover have "\<lfloor>log 2 (x / 2)\<rfloor> = \<lfloor>log 2 x\<rfloor> - 1"
    using x by (simp add: log_divide)
  ultimately show "(x / 2, x) \<in> measure (\<lambda>x. nat \<bar>\<lfloor>log 2 x\<rfloor>\<bar>)"
    unfolding in_measure by linarith
qed

declare normal_exponent.simps [simp del]

definition binary64 :: "real \<Rightarrow> real" where
  "binary64 x =
     (let e = normal_exponent \<bar>x\<bar> - 52
      in sgn x * (of_int (round_half_even (\<bar>x\<bar> / 2 powi e)) * 2 powi e))"

text \<open>
  The operators \<open>/\<close> and \<open>*\<close> give the exact result rounded to a number, and a count that
  the driver hands over becomes the number nearest to it.
\<close>

definition js_div :: "real \<Rightarrow> real \<Rightarrow> real" where
  "js_div a b = binary64 (a / b)"

definition js_mul :: "real \<Rightarrow> real \<Rightarrow> real" where
  "js_mul a b = binary64 (a * b)"

definition js_number :: "nat \<Rightarrow> real" where
  "js_number n = binary64 (real n)"

text \<open>
  \<open>Number.prototype.toFixed\<close>, after the language specification: \<open>nearest f x\<close> is the
  integer \<open>n\<close> for which \<open>n / 10 ^ f\<close> is closest to \<open>x\<close>, the larger one of two;
  \<open>fixed_point f n\<close> writes its digits, filled with zeros on the left to \<open>f + 1\<close> digits,
  with the point before the last \<open>f\<close>.
\<close>

definition nearest :: "nat \<Rightarrow> real \<Rightarrow> nat" where
  "nearest f x = nat \<lfloor>x * 10 ^ f + 1 / 2\<rfloor>"

definition fixed_point :: "nat \<Rightarrow> nat \<Rightarrow> string" where
  "fixed_point f n =
     (let m = nat_digits n;
          m = (if length m \<le> f then replicate (f + 1 - length m) CHR ''0'' @ m else m);
          k = length m
      in if f = 0 then m else take (k - f) m @ ''.'' @ drop (k - f) m)"

definition toFixed :: "nat \<Rightarrow> real \<Rightarrow> string" where
  "toFixed f x =
     (if x < 0 then ''-'' @ fixed_point f (nearest f (- x)) else fixed_point f (nearest f x))"

text \<open>
  The aggregates of the students query, per student of the \<open>LEFT JOIN\<close>:
  \<open>COUNT(a.id)\<close> and \<open>SUM(CASE WHEN a.status = 'present' THEN 1 ELSE 0 END)\<close>.
\<close>

definition total_classes :: "database \<Rightarrow> string \<Rightarrow> nat" where
  "total_classes db sid = length (filter (\<lambda>a. a_student_id a = sid) (attendance db))"

definition present_classes :: "database \<Rightarrow> string \<Rightarrow> nat" where
  "present_classes db sid =
     length (filter (\<lambda>a. a_status a = present) (filter (\<lambda>a. a_student_id a = sid) (attendance db)))"

text \<open>The expression that the handler maps over the rows.\<close>

definition attendanceRate :: "nat \<Rightarrow> nat \<Rightarrow> js_value" where
  "attendanceRate total_count present_count =
     (if total_count > 0 then
        String (toFixed 2 (js_mul (js_div (js_number present_count) (js_number total_count)) 100))
      else Number 0)"

text \<open>
  The handler: the rows in the order of \<open>ORDER BY s.name\<close>, each with its two counts and
  its rate (the field \<open>photo_url\<close> is left out).
\<close>

record student_with_attendance =
  student :: student_row
  student_total_classes :: nat
  student_present_classes :: nat
  student_attendanceRate :: js_value

definition get_students :: "bool \<Rightarrow> database \<Rightarrow> student_with_attendance list response" where
  "get_students query_rejects db =
     (if query_rejects then json_error 500 ''Failed to fetch students''
      else json 200
        (map (\<lambda>s. \<lparr>student = s,
                    student_total_classes = total_classes db (student_id s),
                    student_present_classes = present_classes db (student_id s),
                    student_attendanceRate =
                      attendanceRate (total_classes db (student_id s))
                        (present_classes db (student_id s))\<rparr>)
           (sort_key name (students db))))"

text \<open>The field \<open>overallAttendanceRate\<close> of the dashboard statistics, over the whole table.\<close>

definition overallAttendanceRate :: "database \<Rightarrow> js_value" where
  "overallAttendanceRate db =
     (let total_count = length (attendance db);
          present_count = length (filter (\<lambda>a. a_status a = present) (attendance db))
      in if total_count > 0 then
           String (toFixed 2 (js_mul (js_div (js_number present_count) (js_number total_count)) 100))
         else Number 0)"

text \<open>
  The rate in the words of the specification: \<open>present/total\<close> rounded to 2 decimals, and
  0 when the total is 0.
\<close>

definition spec_rate :: "nat \<Rightarrow> nat \<Rightarrow> js_value" where
  "spec_rate total_count present_count =
     (if total_count > 0 then String (toFixed 2 (real present_count / real total_count))
      else Number 0)"

text \<open>
  A text with two decimals: the digits of the whole part, a point, and two digits.
  \<open>percentage_text\<close> holds of a value that is such a text and lies within half a
  hundredth of a number \<open>d\<close> that differs from the percentage of \<open>present_count\<close> in
  \<open>total_count\<close> by no more than \<open>1 / 10 ^ 13\<close>, the room for the rounding of the
  division and of the multiplication.
\<close>

definition two_decimals :: "nat \<Rightarrow> string" where
  "two_decimals n =
     nat_digits (n div 100) @ ''.'' @ [digit_char (n div 10 mod 10), digit_char (n mod 10)]"

definition percentage_text :: "nat \<Rightarrow> nat \<Rightarrow> js_value \<Rightarrow> bool" where
  "percentage_text total_count present_count v =
     (\<exists>n d. v = String (two_decimals n) \<and>
          \<bar>d - 100 * real present_count / real total_count\<bar> \<le> 1 / 10 ^ 13 \<and>
          \<bar>real n / 100 - d\<bar> \<le> 1 / 200)"

text \<open>A table with three marks, two of them present, and none for student S1.\<close>

definition week_db :: database where
  "week_db = demo_db\<lparr>attendance :=
     [\<lparr>a_id = 1, a_student_id = ''S2'', a_class_id = 1, a_status = present,
       marked_at = 100, updated_at = 100\<rparr>,
      \<lparr>a_id = 2, a_student_id = ''S3'', a_class_id = 1, a_status = absent,
       marked_at = 101, updated_at = 101\<rparr>,
      \<lparr>a_id = 3, a_student_id = ''S4'', a_class_id = 1, a_status = present,
       marked_at = 102, updated_at = 102\<rparr>]\<rparr>"

section \<open>The attendance report: \<open>GET /api/reports/attendance\<close>\<close>

text \<open>A row of the report: the columns the query selects.\<close>

record report_row =
  r_student_id :: string
  r_name :: string
  r_class_name :: string
  r_date :: date
  r_start_time :: time_of_day
  r_end_time :: time_of_day
  r_status :: status
  r_marked_at :: timestamp

definition joined_row :: "attendance_row \<Rightarrow> student_row \<Rightarrow> class_row \<Rightarrow> report_row" where
  "joined_row a s c =
     \<lparr>r_student_id = student_id s, r_name = name s, r_class_name = class_name c,
      r_date = class_date c, r_start_time = start_time c, r_end_time = end_time c,
      r_status = a_status a, r_marked_at = marked_at a\<rparr>"

text \<open>
  \<open>FROM attendance a JOIN students s ON a.student_id = s.student_id
  JOIN classes c ON a.class_id = c.id\<close>.
\<close>

definition joined_rows :: "database \<Rightarrow> report_row list" where
  "joined_rows db =
     [joined_row a s c.
        a \<leftarrow> attendance db,
        s \<leftarrow> students db, student_id s = a_student_id a,
        c \<leftarrow> classes db, c_id c = a_class_id a]"

text \<open>
  The query parameters. Each condition is added to the query only when its parameter is
  truthy: \<open>None\<close> is a parameter that is missing or empty.
\<close>

record report_query =
  startDate :: "date option"
  endDate :: "date option"
  studentId :: "string option"

definition report_where :: "report_query \<Rightarrow> report_row \<Rightarrow> bool" where
  "report_where q r =
     ((case startDate q of None \<Rightarrow> True | Some d \<Rightarrow> d \<le> r_date r) \<and>
      (case endDate q of None \<Rightarrow> True | Some d \<Rightarrow> r_date r \<le> d) \<and>
      (missing (studentId q) \<or> studentId q = Some (r_student_id r)))"

text \<open>
  \<open>ORDER BY c.date DESC, c.start_time ASC, s.name ASC\<close>, as a sort key: the date with
  every component negated, then the start time, then the name.
\<close>

definition descending :: "date \<Rightarrow> int \<times> int \<times> int" where
  "descending d = (case d of (y, m, dd) \<Rightarrow> (- int y, - int m, - int dd))"

definition order_by :: "report_row \<Rightarrow> (int \<times> int \<times> int) \<times> time_of_day \<times> string" where
  "order_by r = (descending (r_date r), r_start_time r, r_name r)"

definition attendance_report :: "report_query \<Rightarrow> database \<Rightarrow> report_row list" where
  "attendance_report q db = sort_key order_by (filter (report_where q) (joined_rows db))"

definition get_reports_attendance ::
  "bool \<Rightarrow> report_query \<Rightarrow> database \<Rightarrow> report_row list response" where
  "get_reports_attendance query_rejects q db =
     (if query_rejects then json_error 500 ''Failed to generate attendance report''
      else json 200 (attendance_report q db))"

text \<open>
  The order of the report between two rows: a later date first; on the same date the
  earlier start time first; on the same date and start time the names in ascending order.
\<close>

definition report_before :: "report_row \<Rightarrow> report_row \<Rightarrow> bool" where
  "report_before r1 r2 =
     (r_date r2 < r_date r1 \<or>
      (r_date r1 = r_date r2 \<and>
       (r_start_time r1 < r_start_time r2 \<or>
        (r_start_time r1 = r_start_time r2 \<and> r_name r1 \<le> r_name r2))))"

text \<open>
  A database with two students and four classes, one of them in April; the last mark is of
  a student id that the table of students does not hold.
\<close>

definition term_db :: database where
  "term_db = \<lparr>students =
       [\<lparr>s_id = 1, student_id = ''S1'', name = ''Bob'', email = ''bob@example.com'',
         face_encoding = [], photo_path = None\<rparr>,
        \<lparr>s_id = 2, student_id = ''S2'', name = ''Ann'', email = ''ann@example.com'',
         face_encoding = [], photo_path = None\<rparr>],
     classes =
       [demo_class,
        \<lparr>c_id = 2, class_name = ''Physics 201'', start_time = 39600, end_time = 45000,
         class_date = (2024, 3, 1)\<rparr>,
        \<lparr>c_id = 3, class_name = ''Chemistry 301'', start_time = 32400, end_time = 37800,
         class_date = (2024, 3, 4)\<rparr>,
        \<lparr>c_id = 4, class_name = ''Biology 101'', start_time = 32400, end_time = 37800,
         class_date = (2024, 4, 2)\<rparr>],
     attendance =
       [\<lparr>a_id = 1, a_student_id = ''S1'', a_class_id = 1, a_status = present,
         marked_at = 100, updated_at = 100\<rparr>,
        \<lparr>a_id = 2, a_student_id = ''S2'', a_class_id = 1, a_status = absent,
         marked_at = 101, updated_at = 101\<rparr>,
        \<lparr>a_id = 3, a_student_id = ''S1'', a_class_id = 2, a_status = absent,
         marked_at = 200, updated_at = 200\<rparr>,
        \<lparr>a_id = 4, a_student_id = ''S2'', a_class_id = 3, a_status = present,
         marked_at = 300, updated_at = 300\<rparr>,
        \<lparr>a_id = 5, a_student_id = ''S1'', a_class_id = 4, a_status = present,
         marked_at = 400, updated_at = 400\<rparr>,
        \<lparr>a_id = 6, a_student_id = ''S9'', a_class_id = 3, a_status = present,
         marked_at = 301, updated_at = 301\<rparr>],
     activity_logs = [], students_auto_increment = 3, attendance_auto_increment = 7\<rparr>"

section \<open>The class scheduling resolver: \<open>GET /api/terminal/current-class\<close>\<close>

text \<open>
  \<open>String.prototype.padStart(n, '0')\<close>, and a time of day written \<open>HH:MM:SS\<close>, as both
  \<open>toTimeString().slice(0, 8)\<close> and \<open>TIME_FORMAT(t, '%H:%i:%s')\<close> write it.
\<close>

definition padStart :: "nat \<Rightarrow> string \<Rightarrow> string" where
  "padStart n s = replicate (n - length s) CHR ''0'' @ s"

definition clock_text :: "nat \<Rightarrow> string" where
  "clock_text secs =
     padStart 2 (nat_digits (secs div 3600)) @ '':'' @
     padStart 2 (nat_digits (secs div 60 mod 60)) @ '':'' @
     padStart 2 (nat_digits (secs mod 60))"

text \<open>
  The local fields of a JavaScript \<open>Date\<close>: year, month counted from 0, day of the month,
  and the local time of day in seconds.
\<close>

record js_Date =
  getFullYear :: nat
  getMonth :: nat
  getDate :: nat
  seconds_since_midnight :: nat

definition toTimeString_slice_0_8 :: "js_Date \<Rightarrow> string" where
  "toTimeString_slice_0_8 d = clock_text (seconds_since_midnight d)"

text \<open>
  \<open>new Date(now.getTime() + 60*60*1000)\<close>, of which the handler reads the time of day
  only; the local offset from UTC is taken to be the same one hour later.
\<close>

definition plus_one_hour :: "js_Date \<Rightarrow> js_Date" where
  "plus_one_hour d =
     d\<lparr>seconds_since_midnight := (seconds_since_midnight d + 60 * 60) mod 86400\<rparr>"

text \<open>The handler's \<open>currentDate\<close>: year, month and day of the local date, joined by dashes.\<close>

definition js_date_text :: "js_Date \<Rightarrow> string" where
  "js_date_text now =
     nat_digits (getFullYear now) @ ''-'' @ padStart 2 (nat_digits (getMonth now + 1)) @ ''-'' @
     padStart 2 (nat_digits (getDate now))"

text \<open>\<open>DATE_FORMAT(c.date, '%Y-%m-%d')\<close> and \<open>TIME_FORMAT\<close> of the database.\<close>

definition DATE_FORMAT :: "date \<Rightarrow> string" where
  "DATE_FORMAT d =
     (case d of (y, m, dd) \<Rightarrow>
        padStart 4 (nat_digits y) @ ''-'' @ padStart 2 (nat_digits m) @ ''-'' @
        padStart 2 (nat_digits dd))"

definition TIME_FORMAT :: "time_of_day \<Rightarrow> string" where
  "TIME_FORMAT t = clock_text t"

text \<open>The columns both queries select.\<close>

record class_view =
  view_class_id :: int
  view_class_name :: string
  view_date :: string
  view_start_time :: string
  view_end_time :: string

definition select_class :: "class_row \<Rightarrow> class_view" where
  "select_class c =
     \<lparr>view_class_id = c_id c, view_class_name = class_name c,
      view_date = DATE_FORMAT (class_date c), view_start_time = TIME_FORMAT (start_time c),
      view_end_time = TIME_FORMAT (end_time c)\<rparr>"

text \<open>
  The two queries. The conditions compare the formatted texts, as the SQL does;
  \<open>ORDER BY c.start_time ASC LIMIT 1\<close> keeps the first row of the sorted result.
\<close>

definition current_classes :: "string \<Rightarrow> string \<Rightarrow> database \<Rightarrow> class_row list" where
  "current_classes currentDate currentTime db =
     take 1 (sort_key start_time
       (filter (\<lambda>c. DATE_FORMAT (class_date c) = currentDate \<and>
                     TIME_FORMAT (start_time c) \<le> currentTime \<and>
                     currentTime \<le> TIME_FORMAT (end_time c))
          (classes db)))"

definition upcoming_classes :: "string \<Rightarrow> string \<Rightarrow> string \<Rightarrow> database \<Rightarrow> class_row list" where
  "upcoming_classes currentDate currentTime nextHour db =
     take 1 (sort_key start_time
       (filter (\<lambda>c. DATE_FORMAT (class_date c) = currentDate \<and>
                     currentTime < TIME_FORMAT (start_time c) \<and>
                     TIME_FORMAT (start_time c) \<le> nextHour)
          (classes db)))"

text \<open>
  The response: \<open>hasCurrentClass\<close> true with the class, or false with the upcoming class
  or \<open>null\<close>; both carry \<open>currentTime\<close> and \<open>currentDate\<close>.
\<close>

datatype current_class_payload =
    has_current_class class_view string string
  | no_current_class "class_view option" string string

definition get_terminal_current_class ::
  "bool \<Rightarrow> js_Date \<Rightarrow> database \<Rightarrow> current_class_payload response" where
  "get_terminal_current_class query_rejects now db =
     (if query_rejects then json_error 500 ''Failed to fetch current class''
      else
        (let currentTime = toTimeString_slice_0_8 now;
             currentDate = js_date_text now
         in case current_classes currentDate currentTime db of
              c # _ \<Rightarrow> json 200 (has_current_class (select_class c) currentTime currentDate)
            | [] \<Rightarrow>
                (let nextHour = toTimeString_slice_0_8 (plus_one_hour now)
                 in case upcoming_classes currentDate currentTime nextHour db of
                      u # _ \<Rightarrow>
                        json 200 (no_current_class (Some (select_class u)) currentTime currentDate)
                    | [] \<Rightarrow> json 200 (no_current_class None currentTime currentDate))))"

text \<open>
  The conditions of the two lookups on numbers: a class is in progress when its date is
  the local date of \<open>now\<close> and its window holds the time of day; it starts within the hour
  when its date is the local date and its start lies after \<open>now\<close> by at most 60 minutes.
\<close>

definition local_date :: "js_Date \<Rightarrow> date" where
  "local_date now = (getFullYear now, getMonth now + 1, getDate now)"

definition in_progress :: "js_Date \<Rightarrow> class_row \<Rightarrow> bool" where
  "in_progress now c =
     (class_date c = local_date now \<and> start_time c \<le> seconds_since_midnight now \<and>
      seconds_since_midnight now \<le> end_time c)"

definition starts_within_hour :: "js_Date \<Rightarrow> class_row \<Rightarrow> bool" where
  "starts_within_hour now c =
     (class_date c = local_date now \<and> seconds_since_midnight now < start_time c \<and>
      start_time c \<le> seconds_since_midnight now + 60 * 60)"

definition plausible_class :: "class_row \<Rightarrow> bool" where
  "plausible_class c =
     (start_time c < 86400 \<and> end_time c < 86400 \<and>
      (case class_date c of (y, m, d) \<Rightarrow> 1000 \<le> y \<and> m < 100 \<and> d < 100))"

definition plausible_now :: "js_Date \<Rightarrow> bool" where
  "plausible_now now =
     (seconds_since_midnight now < 86400 \<and> getMonth now + 1 < 100 \<and> getDate now < 100)"

text \<open>
  A class from 23:45 to 23:59 on 2024-03-01 beside the class from 09:00 to 10:30, and three
  times of that day: 08:30, 09:15 and 23:30.
\<close>

definition night_class :: class_row where
  "night_class = \<lparr>c_id = 7, class_name = ''Night Lab'', start_time = 85500, end_time = 86340,
                   class_date = (2024, 3, 1)\<rparr>"

definition night_db :: database where
  "night_db = demo_db\<lparr>classes := [demo_class, night_class]\<rparr>"

definition late_evening :: js_Date where
  "late_evening = \<lparr>getFullYear = 2024, getMonth = 2, getDate = 1,
                    seconds_since_midnight = 84600\<rparr>"

definition morning :: js_Date where
  "morning = \<lparr>getFullYear = 2024, getMonth = 2, getDate = 1, seconds_since_midnight = 33300\<rparr>"

definition early_morning :: js_Date where
  "early_morning = \<lparr>getFullYear = 2024, getMonth = 2, getDate = 1, seconds_since_midnight = 30600\<rparr>"

section \<open>Properties of the attendance upsert\<close>

lemma pair_key_on_duplicate_update [simp]:
  "pair_key (on_duplicate_update st now r) = pair_key r"
  by (simp add: pair_key_def on_duplicate_update_def)

lemma map_pair_key_upsert_rows [simp]:
  "map pair_key (upsert_rows sid cid st now rs) = map pair_key rs"
  by (induction rs) simp_all

lemma rows_for_upsert_rows:
  "unique_student_class rs \<Longrightarrow> rows_for sid cid rs = old # rest \<Longrightarrow>
   rows_for sid cid (upsert_rows sid cid st now rs) = [on_duplicate_update st now old]"
proof (induction rs)
  case Nil
  then show ?case by (simp add: rows_for_def)
next
  case (Cons r rs)
  show ?case
  proof (cases "pair_key r = (sid, cid)")
    case True
    with Cons.prems have "old = r" and "(sid, cid) \<notin> set (map pair_key rs)"
      by (auto simp: rows_for_def unique_student_class_def)
    then have "filter (\<lambda>r. pair_key r = (sid, cid)) rs = []"
      by (force simp: filter_empty_conv image_iff)
    with True \<open>old = r\<close> show ?thesis by (simp add: rows_for_def)
  next
    case False
    with Cons show ?thesis by (simp add: rows_for_def unique_student_class_def)
  qed
qed

lemma MarkAttendance_succeeds:
  assumes "class_exists db cid"
  shows "\<exists>db'. MarkAttendance sid cid st now db = Inr db'"
  using assms by (auto simp: MarkAttendance_def Let_def split: list.splits)

lemma MarkAttendance_classes:
  "MarkAttendance sid cid st now db = Inr db' \<Longrightarrow> classes db' = classes db"
  by (auto simp: MarkAttendance_def Let_def split: list.splits if_splits)

lemma MarkAttendance_unique:
  assumes "unique_student_class (attendance db)"
    and "MarkAttendance sid cid st now db = Inr db'"
  shows "unique_student_class (attendance db')"
proof (cases "rows_for sid cid (attendance db)")
  case Nil
  then have "(sid, cid) \<notin> set (map pair_key (attendance db))"
    by (auto simp: rows_for_def filter_empty_conv)
  with assms Nil show ?thesis
    by (auto simp: MarkAttendance_def Let_def unique_student_class_def pair_key_def split: if_splits)
next
  case (Cons old rest)
  with assms show ?thesis
    by (auto simp: MarkAttendance_def Let_def unique_student_class_def split: if_splits)
qed

lemma MarkAttendance_row:
  assumes "unique_student_class (attendance db)"
    and "MarkAttendance sid cid st now db = Inr db'"
  shows "\<exists>r. rows_for sid cid (attendance db') = [r] \<and> a_status r = st \<and> marked_at r = now"
proof (cases "rows_for sid cid (attendance db)")
  case Nil
  with assms show ?thesis
    by (auto simp: MarkAttendance_def Let_def rows_for_def pair_key_def split: if_splits)
next
  case (Cons old rest)
  with assms have "attendance db' = upsert_rows sid cid st now (attendance db)"
    by (auto simp: MarkAttendance_def Let_def split: if_splits)
  with rows_for_upsert_rows [OF assms(1) Cons] show ?thesis
    by (simp add: on_duplicate_update_def)
qed

lemma mark_all_unique:
  "unique_student_class (attendance db) \<Longrightarrow> unique_student_class (attendance (mark_all calls db))"
proof (induction calls arbitrary: db)
  case Nil
  then show ?case by simp
next
  case (Cons call calls)
  obtain sid cid st now where call: "call = (sid, cid, st, now)"
    by (cases call) auto
  show ?case
  proof (cases "MarkAttendance sid cid st now db")
    case (Inl e)
    with Cons call show ?thesis by simp
  next
    case (Inr db')
    with Cons.prems have "unique_student_class (attendance db')"
      by (rule MarkAttendance_unique)
    with Cons.IH Inr call show ?thesis by simp
  qed
qed

text \<open>
  Claim C1. On a table that satisfies the unique key \<open>unique_student_class\<close>, and for a
  class that exists, marking a (student, class) pair and then marking it again (with the
  same or another status) both succeed and leave exactly one row for the pair, which
  carries the status and the mark timestamp of the second call. No sequence of
  \<open>MarkAttendance\<close> calls, failing ones included, leaves two rows with the same pair.
\<close>

theorem markAttendance_one_row_per_pair:
  assumes "unique_student_class (attendance db)" and "class_exists db cid"
  shows "(\<exists>db1 db2 r.
            MarkAttendance sid cid st1 t1 db = Inr db1 \<and>
            MarkAttendance sid cid st2 t2 db1 = Inr db2 \<and>
            rows_for sid cid (attendance db2) = [r] \<and> a_status r = st2 \<and> marked_at r = t2) \<and>
         unique_student_class (attendance (mark_all calls db))"
proof -
  obtain db1 where m1: "MarkAttendance sid cid st1 t1 db = Inr db1"
    using MarkAttendance_succeeds [OF assms(2)] by blast
  have u1: "unique_student_class (attendance db1)"
    using assms(1) m1 by (rule MarkAttendance_unique)
  have "class_exists db1 cid"
    using assms(2) MarkAttendance_classes [OF m1] by (simp add: class_exists_def)
  then obtain db2 where m2: "MarkAttendance sid cid st2 t2 db1 = Inr db2"
    using MarkAttendance_succeeds by blast
  obtain r where "rows_for sid cid (attendance db2) = [r]" "a_status r = st2" "marked_at r = t2"
    using MarkAttendance_row [OF u1 m2] by blast
  with m1 m2 mark_all_unique [OF assms(1)] show ?thesis by blast
qed

theorem markAttendance_one_row_per_pair_witness:
  "unique_student_class (attendance demo_db) \<and> class_exists demo_db 1 \<and>
   (\<exists>db1 db2 r.
      MarkAttendance ''S1'' 1 present 100 demo_db = Inr db1 \<and>
      MarkAttendance ''S1'' 1 absent 200 db1 = Inr db2 \<and>
      rows_for ''S1'' 1 (attendance db2) = [r] \<and> a_status r = absent \<and> marked_at r = 200) \<and>
   unique_student_class
     (attendance (mark_all [(''S1'', 1, present, 100), (''S1'', 1, absent, 200)] demo_db))"
proof -
  have u: "unique_student_class (attendance demo_db)"
    by (simp add: demo_db_def unique_student_class_def)
  have c: "class_exists demo_db 1"
    by (simp add: demo_db_def demo_class_def class_exists_def)
  show ?thesis
    using u c markAttendance_one_row_per_pair [OF u c, of "''S1''" present 100 absent 200
        "[(''S1'', 1, present, 100), (''S1'', 1, absent, 200)]"]
    by simp
qed

section \<open>Referential checks of the attendance upsert\<close>

text \<open>
  A class id that references no class makes the procedure fail with the foreign-key error;
  the transaction is rolled back, so no row is created.
\<close>

lemma MarkAttendance_unknown_class:
  "\<not> class_exists db cid \<Longrightarrow> MarkAttendance sid cid st now db = Inl ER_NO_REFERENCED_ROW"
  by (simp add: MarkAttendance_def Let_def)

text \<open>
  Claim C5. The claim asks for a failure, and no new row, whenever the student id or the
  class id references no existing row. The schema declares a foreign key for \<open>class_id\<close>
  only: with an existing class and a student id that is in no row of \<open>students\<close>, the
  procedure succeeds and creates the attendance row.
\<close>

theorem MarkAttendance_unknown_student_creates_row:
  "\<not> student_exists demo_db ''GHOST'' \<and>
   (\<exists>db'. MarkAttendance ''GHOST'' 1 present 100 demo_db = Inr db' \<and>
      attendance db' = [\<lparr>a_id = 1, a_student_id = ''GHOST'', a_class_id = 1, a_status = present,
                         marked_at = 100, updated_at = 100\<rparr>])"
  by (simp add: student_exists_def demo_db_def demo_class_def MarkAttendance_def Let_def
      class_exists_def rows_for_def pair_key_def)

section \<open>Properties of the WebSocket hub\<close>

text \<open>
  Claim C8. For every message and every list of registered connections, \<open>broadcast\<close>
  returns normally; each open connection has received the message, after what it had
  received before, and each connection in another state is left as it was. A connection
  that is not open neither makes the call fail nor keeps the message from the
  connections after it.
\<close>

theorem broadcast_skips_closed:
  "broadcast message connectedClients =
     Inr (map (\<lambda>ws. if readyState ws = OPEN then ws\<lparr>sent := sent ws @ [message]\<rparr> else ws)
            connectedClients)"
proof (induction connectedClients)
  case Nil
  show ?case by simp
next
  case (Cons ws rest)
  show ?case
  proof (cases "readyState ws = OPEN")
    case True
    then have "ws_send ws message = Inr (ws\<lparr>sent := sent ws @ [message]\<rparr>)"
      by (simp add: ws_send_def)
    with True Cons show ?thesis by simp
  next
    case False
    with Cons show ?thesis by simp
  qed
qed

section \<open>Properties of frame intake\<close>

lemma broadcast_each_returns: "\<exists>clients'. broadcast_each ms clients = Inr clients'"
proof (induction ms arbitrary: clients)
  case Nil
  show ?case by simp
next
  case (Cons m ms)
  have "\<exists>cs. broadcast m clients = Inr cs"
    by (induction clients) (auto simp: ws_send_def)
  with Cons show ?case by auto
qed

lemma on_close_idle: "idle st \<Longrightarrow> done_by close_path t (on_close req t code output st)"
  using broadcast_each_returns
  by (auto simp: idle_def done_by_def on_close_def Let_def respond_def
      split: recognizer_output.splits sum.splits)

lemma on_timeout_idle: "idle st \<Longrightarrow> done_by timeout_path t (on_timeout t st)"
  by (auto simp: idle_def done_by_def on_timeout_def Let_def respond_def)

lemma frame_step_done: "done_by p t st \<Longrightarrow> done_by p t (frame_step req st e)"
  by (cases e) (auto simp: done_by_def on_close_def Let_def)

lemma foldl_frame_step_done: "done_by p t st \<Longrightarrow> done_by p t (foldl (frame_step req) st es)"
  by (induction es arbitrary: st) (simp_all add: frame_step_done)

lemma process_frame_sync_cases:
  assumes "valid_request req" and "spawn rt \<noteq> child_emits_error"
  shows "(child_spawned (process_frame_sync req rt clients) \<and> idle (process_frame_sync req rt clients)) \<or>
         (\<not> child_spawned (process_frame_sync req rt clients) \<and>
          answered (process_frame_sync req rt clients) =
            [(catch_path, 0, json_error 500 ''Failed to process frame'')])"
  using assms
  by (auto simp: valid_request_def process_frame_sync_def Let_def respond_def idle_def
      split: js_value.splits spawn_result.splits)

lemma timeline_first:
  "\<exists>e es. timeline child = e # es \<and>
     ((\<exists>t code out. e = process_closed t code out \<and> t < frame_timeout_ms) \<or>
      e = timer_fired frame_timeout_ms)"
  by (auto simp: timeline_def Let_def split: option.splits)

lemma frame_step_idle:
  "idle st \<Longrightarrow>
   (\<exists>t code out. e = process_closed t code out \<and> done_by close_path t (frame_step req st e)) \<or>
   (\<exists>t. e = timer_fired t \<and> done_by timeout_path t (frame_step req st e))"
  by (cases e) (auto simp: on_close_idle on_timeout_idle, simp add: idle_def)

lemma events_answer_once:
  assumes "idle st"
  shows "length (answered (foldl (frame_step req) st es)) \<le> 1"
proof (cases es)
  case Nil
  with assms show ?thesis by (simp add: idle_def)
next
  case (Cons e es')
  from frame_step_idle [OF assms, of e req]
  obtain p t where "done_by p t (frame_step req st e)" by blast
  then have "done_by p t (foldl (frame_step req) st es)"
    using Cons by (simp add: foldl_frame_step_done)
  then show ?thesis by (auto simp: done_by_def)
qed

text \<open>
  Claim C2, as the code has it. A request that passes validation, in a run where the
  child does not emit \<open>error\<close>, gets exactly one response. When the synchronous part of the
  handler throws, the \<open>catch\<close> of the handler sends it and no recognizer runs; otherwise
  exactly one of the completion path and the timeout path sends it, at a time no later
  than the timeout of 10000 ms. Whatever the order and number of the events, no request
  gets two responses.
\<close>

theorem process_frame_answers_once:
  assumes "valid_request req" and "spawn rt \<noteq> child_emits_error"
  shows "(\<exists>p t r. answered (process_frame req rt clients (timeline child)) = [(p, t, r)] \<and>
            t \<le> frame_timeout_ms \<and>
            (if child_spawned (process_frame_sync req rt clients)
             then p = close_path \<or> p = timeout_path else p = catch_path)) \<and>
         length (answered (process_frame req rt clients events)) \<le> 1"
proof (cases "child_spawned (process_frame_sync req rt clients)")
  case True
  with process_frame_sync_cases [OF assms, of clients]
  have idle: "idle (process_frame_sync req rt clients)" by blast
  obtain e es where tl: "timeline child = e # es"
    and e: "(\<exists>t code out. e = process_closed t code out \<and> t < frame_timeout_ms) \<or>
            e = timer_fired frame_timeout_ms"
    using timeline_first by blast
  from frame_step_idle [OF idle, of e req] e
  obtain p t where d: "done_by p t (frame_step req (process_frame_sync req rt clients) e)"
    and pt: "t \<le> frame_timeout_ms" "p = close_path \<or> p = timeout_path"
    by auto
  from d have "done_by p t (foldl (frame_step req) (process_frame_sync req rt clients) (e # es))"
    by (simp add: foldl_frame_step_done)
  with tl True pt events_answer_once [OF idle, of req events] show ?thesis
    by (auto simp: process_frame_def Let_def done_by_def)
next
  case False
  with process_frame_sync_cases [OF assms, of clients] show ?thesis
    by (auto simp: process_frame_def Let_def)
qed

theorem process_frame_answers_once_witness:
  "valid_request demo_request \<and> spawn demo_runtime \<noteq> child_emits_error \<and>
   (\<exists>p t r. answered (process_frame demo_request demo_runtime [demo_socket] (timeline slow_child))
              = [(p, t, r)] \<and>
            t \<le> frame_timeout_ms \<and>
            (if child_spawned (process_frame_sync demo_request demo_runtime [demo_socket])
             then p = close_path \<or> p = timeout_path else p = catch_path)) \<and>
   length (answered (process_frame demo_request demo_runtime [demo_socket]
             [timer_fired 10000, process_closed 10000 (Some 0) unusable])) \<le> 1"
proof -
  have v: "valid_request demo_request"
    by (simp add: valid_request_def demo_request_def)
  have s: "spawn demo_runtime \<noteq> child_emits_error"
    by (simp add: demo_runtime_def)
  show ?thesis
    using v s process_frame_answers_once [OF v s, of "[demo_socket]" slow_child
        "[timer_fired 10000, process_closed 10000 (Some 0) unusable]"]
    by simp
qed

text \<open>
  The claim as it is written names two paths only. The body
  \<open>{"image": 1, "class_id": 1, "terminal_id": "T1"}\<close> passes validation, \<open>image.replace\<close>
  throws, and the response comes from the \<open>catch\<close> of the handler: neither the timeout
  path nor the completion path produces it.
\<close>

theorem process_frame_catch_path_counterexample:
  "valid_request (demo_request\<lparr>image := Number 1\<rparr>) \<and>
   answered (process_frame (demo_request\<lparr>image := Number 1\<rparr>) demo_runtime [demo_socket]
               (timeline quick_child))
     = [(catch_path, 0, json_error 500 ''Failed to process frame'')]"
  by (simp add: valid_request_def demo_request_def process_frame_def process_frame_sync_def
      Let_def respond_def)

text \<open>
  Once the recognizer has been started, the transient file is gone at the end of the
  request, whether the process closed with code 0, with another code, with output that
  cannot be used, or was killed by the timeout.
\<close>

lemma process_frame_spawned_removes_file:
  assumes "child_spawned (process_frame_sync req rt clients)"
  shows "\<not> temp_file_exists (process_frame req rt clients (timeline child))"
proof -
  from assms have idle: "idle (process_frame_sync req rt clients)"
    by (auto simp: process_frame_sync_def Let_def respond_def idle_def
        split: js_value.splits if_splits spawn_result.splits)
  obtain e es where tl: "timeline child = e # es"
    using timeline_first by blast
  from frame_step_idle [OF idle, of e req]
  obtain p t where "done_by p t (frame_step req (process_frame_sync req rt clients) e)"
    by blast
  then have "done_by p t (foldl (frame_step req) (process_frame_sync req rt clients) (e # es))"
    by (simp add: foldl_frame_step_done)
  with tl assms show ?thesis
    by (simp add: process_frame_def Let_def done_by_def)
qed

text \<open>
  When the child emits \<open>error\<close>, the server process ends with the file written and no
  response sent.
\<close>

lemma process_frame_error_event:
  assumes "valid_request req" and "image req = String base64"
    and "\<not> writeFileSync_throws rt" and "spawn rt = child_emits_error"
  shows "answered (process_frame req rt clients events) = [] \<and>
         server_crashed (process_frame req rt clients events) \<and>
         temp_file_exists (process_frame req rt clients events)"
  using assms
  by (simp add: valid_request_def process_frame_def process_frame_sync_def Let_def)

text \<open>
  Claim C3. The claim includes every other failure path of the handler. When the file has
  been written and \<open>spawn\<close> then throws, the \<open>catch\<close> of the handler answers 500 and
  removes nothing: the request is complete and the transient file is still on disk.
\<close>

theorem process_frame_catch_leaves_temp_file:
  "answered (process_frame demo_request (demo_runtime\<lparr>spawn := spawn_threw\<rparr>) [demo_socket]
               (timeline quick_child))
     = [(catch_path, 0, json_error 500 ''Failed to process frame'')] \<and>
   temp_file_exists (process_frame demo_request (demo_runtime\<lparr>spawn := spawn_threw\<rparr>)
                       [demo_socket] (timeline quick_child))"
  by (simp add: demo_request_def demo_runtime_def process_frame_def process_frame_sync_def
      Let_def respond_def)

section \<open>Properties of student creation\<close>

lemma INSERT_student_Inr:
  "INSERT_student sid nm em enc photo db = Inr (i, db') \<Longrightarrow>
   \<exists>r. students db' = students db @ [r] \<and> face_encoding r = enc \<and> student_id r = sid \<and> s_id r = i"
  by (auto simp: INSERT_student_def Let_def split: if_splits)

text \<open>
  Claim C9. Whatever the request and the runtime, each of the two creation handlers
  either stores nothing and answers an error, or appends exactly one student row, whose
  \<open>face_encoding\<close> is the empty string; a success response carries the id of that row. No
  other row of \<open>students\<close> is written, so the backend never stores a non-empty encoding.
\<close>

theorem created_students_have_empty_face_encoding:
  "(case post_students isEmail rt form db of
      (res, db') \<Rightarrow> not_created res db db' \<or> created_with_empty_encoding form res db db') \<and>
   (case post_students_with_photo rt form upload db files of
      (res, db', files') \<Rightarrow> not_created res db db' \<or> created_with_empty_encoding form res db db')"
proof
  show "case post_students isEmail rt form db of
      (res, db') \<Rightarrow> not_created res db db' \<or> created_with_empty_encoding form res db db'"
  proof (cases "INSERT_student (field_text (form_student_id form)) (field_text (form_name form))
                  (field_text (form_email form)) [] None db")
    case (Inl e)
    then show ?thesis
      by (auto simp: post_students_def Let_def not_created_def split: sql_error.splits)
  next
    case (Inr p)
    obtain i db1 where p: "p = (i, db1)" by (cases p)
    from INSERT_student_Inr [OF Inr [unfolded p]] Inr p show ?thesis
      by (auto simp: post_students_def Let_def not_created_def created_with_empty_encoding_def)
  qed
  show "case post_students_with_photo rt form upload db files of
      (res, db', files') \<Rightarrow> not_created res db db' \<or> created_with_empty_encoding form res db db'"
  proof (cases upload)
    case None
    then show ?thesis
      by (auto simp: post_students_with_photo_def not_created_def)
  next
    case (Some photoPath)
    show ?thesis
    proof (cases "INSERT_student (field_text (form_student_id form)) (field_text (form_name form))
                    (field_text (form_email form)) [] (Some photoPath) db")
      case (Inl e)
      with Some show ?thesis
        by (auto simp: post_students_with_photo_def Let_def not_created_def
            split: sql_error.splits)
    next
      case (Inr p)
      obtain i db1 where p: "p = (i, db1)" by (cases p)
      from INSERT_student_Inr [OF Inr [unfolded p]] Inr p Some show ?thesis
        by (auto simp: post_students_with_photo_def Let_def not_created_def
            created_with_empty_encoding_def)
    qed
  qed
qed

section \<open>Properties of authentication\<close>

lemma login_token_iff:
  "(token_issued (post_auth_login env now body) \<noteq> None) =
   (notEmpty (body_username body) \<and> notEmpty (body_password body) \<and>
    credentials_match env body \<and> usable_secret (JWT_SECRET env))"
  by (auto simp: post_auth_login_def Let_def token_issued_def credentials_match_def jwt_sign_def)

lemma login_token_expiry:
  "token_issued (post_auth_login env now body) = Some token \<Longrightarrow>
   \<exists>claims. token = jwt claims (HS256 (field_text (JWT_SECRET env)) claims) \<and>
     jwt_iat claims = now \<and> jwt_exp claims = now + 86400 \<and>
     claim_username claims = field_text (body_username body)"
  by (auto simp: post_auth_login_def Let_def token_issued_def jwt_sign_def
      split: if_splits)

lemma authenticate_accepts_iff:
  "(authenticateToken env now authHeader = Inr user) =
   (\<exists>sg. split_1 authHeader = Some (jwt user sg) \<and> valid_token env now (jwt user sg))"
  by (auto simp: authenticateToken_def valid_token_def jwt_verify_def
      split: option.splits token_text.splits if_splits)

lemma login_token_accepted:
  assumes "token_issued (post_auth_login env now body) = Some token"
  shows "\<exists>claims. token = jwt claims (HS256 (field_text (JWT_SECRET env)) claims) \<and>
           jwt_iat claims = now \<and> jwt_exp claims = now + 24 * 60 * 60 \<and>
           authenticateToken env t (bearer token) =
             (if t < now + 24 * 60 * 60 then Inr claims
              else Inl (json_error 403 ''Invalid token''))"
proof -
  from assms have "usable_secret (JWT_SECRET env)"
    using login_token_iff [of env now body] by (simp add: credentials_match_def)
  moreover from login_token_expiry [OF assms]
  obtain claims where "token = jwt claims (HS256 (field_text (JWT_SECRET env)) claims)"
    "jwt_iat claims = now" "jwt_exp claims = now + 86400" by blast
  ultimately show ?thesis
    by (auto simp: authenticateToken_def bearer_def split_1_def jwt_verify_def)
qed

text \<open>
  Claim C10, as the code has it. The login handler issues a token exactly when username
  and password are both non-empty, both equal the configured admin credentials, and a
  signing secret is configured. It answers 400 when the username or the password is
  missing or empty, and 401 when both are there and do not match. Every issued token is
  signed with the configured secret, is issued at the time of the request and expires 24
  hours later; presented as a bearer token it is accepted before that time and refused
  with 403 from then on. The middleware accepts a request exactly when the piece at index
  1 of the header is a token that is validly signed and not yet expired; it answers 401
  when no token is presented and 403 when the presented token is not valid.
\<close>

theorem login_and_token_verification:
  "((token_issued (post_auth_login env now body) \<noteq> None) =
      (notEmpty (body_username body) \<and> notEmpty (body_password body) \<and>
       credentials_match env body \<and> usable_secret (JWT_SECRET env))) \<and>
   (missing (body_username body) \<or> missing (body_password body) \<longrightarrow>
      (\<exists>errors. post_auth_login env now body = json_errors 400 errors)) \<and>
   (notEmpty (body_username body) \<and> notEmpty (body_password body) \<and>
    \<not> credentials_match env body \<longrightarrow>
      post_auth_login env now body = json_error 401 ''Invalid credentials'') \<and>
   (token_issued (post_auth_login env now body) = Some token \<longrightarrow>
      (\<exists>claims. token = jwt claims (HS256 (field_text (JWT_SECRET env)) claims) \<and>
         jwt_iat claims = now \<and> jwt_exp claims = now + 24 * 60 * 60 \<and>
         authenticateToken env t (bearer token) =
           (if t < now + 24 * 60 * 60 then Inr claims
            else Inl (json_error 403 ''Invalid token'')))) \<and>
   ((authenticateToken env t authHeader = Inr user) =
      (\<exists>sg. split_1 authHeader = Some (jwt user sg) \<and> valid_token env t (jwt user sg))) \<and>
   (\<not> token_present authHeader \<longrightarrow>
      authenticateToken env t authHeader = Inl (json_error 401 ''Access token required'')) \<and>
   (token_present authHeader \<and> split_1 authHeader = Some presented \<and>
    \<not> valid_token env t presented \<longrightarrow>
      authenticateToken env t authHeader = Inl (json_error 403 ''Invalid token''))"
proof -
  have a: "(token_issued (post_auth_login env now body) \<noteq> None) =
      (notEmpty (body_username body) \<and> notEmpty (body_password body) \<and>
       credentials_match env body \<and> usable_secret (JWT_SECRET env))"
    by (rule login_token_iff)
  have b: "missing (body_username body) \<or> missing (body_password body) \<longrightarrow>
      (\<exists>errors. post_auth_login env now body = json_errors 400 errors)"
    by (auto simp: post_auth_login_def Let_def missing_def notEmpty_def)
  have c: "notEmpty (body_username body) \<and> notEmpty (body_password body) \<and>
    \<not> credentials_match env body \<longrightarrow>
      post_auth_login env now body = json_error 401 ''Invalid credentials''"
    by (auto simp: post_auth_login_def Let_def credentials_match_def)
  have d: "token_issued (post_auth_login env now body) = Some token \<longrightarrow>
      (\<exists>claims. token = jwt claims (HS256 (field_text (JWT_SECRET env)) claims) \<and>
         jwt_iat claims = now \<and> jwt_exp claims = now + 24 * 60 * 60 \<and>
         authenticateToken env t (bearer token) =
           (if t < now + 24 * 60 * 60 then Inr claims
            else Inl (json_error 403 ''Invalid token'')))"
    using login_token_accepted by blast
  have e: "(authenticateToken env t authHeader = Inr user) =
      (\<exists>sg. split_1 authHeader = Some (jwt user sg) \<and> valid_token env t (jwt user sg))"
    by (rule authenticate_accepts_iff)
  have f: "\<not> token_present authHeader \<longrightarrow>
      authenticateToken env t authHeader = Inl (json_error 401 ''Access token required'')"
    by (auto simp: authenticateToken_def token_present_def split: option.splits)
  have g: "token_present authHeader \<and> split_1 authHeader = Some presented \<and>
    \<not> valid_token env t presented \<longrightarrow>
      authenticateToken env t authHeader = Inl (json_error 403 ''Invalid token'')"
    by (auto simp: authenticateToken_def token_present_def valid_token_def jwt_verify_def
        split: option.splits token_text.splits)
  from a b c d e f g show ?thesis by blast
qed

lemma login_demo_facts:
  "missing (body_password no_password)"
  "notEmpty (body_username wrong_password)" "notEmpty (body_password wrong_password)"
  "\<not> credentials_match demo_env wrong_password"
  "token_issued (post_auth_login demo_env 1000 good_login) = Some demo_token"
  "\<not> token_present None"
  "token_present (bearer forged_token)" "split_1 (bearer forged_token) = Some forged_token"
  "\<not> valid_token demo_env 2000 forged_token"
  by (simp_all add: missing_def notEmpty_def field_text_def no_password_def wrong_password_def
      credentials_match_def demo_env_def good_login_def token_issued_def post_auth_login_def
      jwt_sign_def Let_def usable_secret_def demo_token_def demo_claims_def token_present_def
      bearer_def split_1_def forged_token_def valid_token_def)

theorem login_and_token_verification_witness:
  "missing (body_password no_password) \<and>
   (\<exists>errors. post_auth_login demo_env 1000 no_password = json_errors 400 errors) \<and>
   notEmpty (body_username wrong_password) \<and> notEmpty (body_password wrong_password) \<and>
   \<not> credentials_match demo_env wrong_password \<and>
   post_auth_login demo_env 1000 wrong_password = json_error 401 ''Invalid credentials'' \<and>
   token_issued (post_auth_login demo_env 1000 good_login) = Some demo_token \<and>
   authenticateToken demo_env 2000 (bearer demo_token) = Inr demo_claims \<and>
   authenticateToken demo_env 87400 (bearer demo_token) = Inl (json_error 403 ''Invalid token'') \<and>
   \<not> token_present None \<and>
   authenticateToken demo_env 2000 None = Inl (json_error 401 ''Access token required'') \<and>
   token_present (bearer forged_token) \<and> split_1 (bearer forged_token) = Some forged_token \<and>
   \<not> valid_token demo_env 2000 forged_token \<and>
   authenticateToken demo_env 2000 (bearer forged_token) = Inl (json_error 403 ''Invalid token'')"
proof -
  note f = login_demo_facts
  have 1: "\<exists>errors. post_auth_login demo_env 1000 no_password = json_errors 400 errors"
    using login_and_token_verification [of demo_env 1000 no_password] f(1) by blast
  have 2: "post_auth_login demo_env 1000 wrong_password = json_error 401 ''Invalid credentials''"
    using login_and_token_verification [of demo_env 1000 wrong_password] f(2,3,4) by blast
  have "\<exists>claims. demo_token = jwt claims (HS256 (field_text (JWT_SECRET demo_env)) claims) \<and>
         jwt_iat claims = 1000 \<and> jwt_exp claims = 1000 + 24 * 60 * 60 \<and>
         authenticateToken demo_env 2000 (bearer demo_token) =
           (if (2000::nat) < 1000 + 24 * 60 * 60 then Inr claims
            else Inl (json_error 403 ''Invalid token''))"
    using login_and_token_verification [of demo_env 1000 good_login demo_token 2000] f(5)
    by blast
  then have 3: "authenticateToken demo_env 2000 (bearer demo_token) = Inr demo_claims"
    by (auto simp: demo_token_def)
  have "\<exists>claims. demo_token = jwt claims (HS256 (field_text (JWT_SECRET demo_env)) claims) \<and>
         jwt_iat claims = 1000 \<and> jwt_exp claims = 1000 + 24 * 60 * 60 \<and>
         authenticateToken demo_env 87400 (bearer demo_token) =
           (if (87400::nat) < 1000 + 24 * 60 * 60 then Inr claims
            else Inl (json_error 403 ''Invalid token''))"
    using login_and_token_verification [of demo_env 1000 good_login demo_token 87400] f(5)
    by blast
  then have 4: "authenticateToken demo_env 87400 (bearer demo_token) =
      Inl (json_error 403 ''Invalid token'')"
    by auto
  have 5: "authenticateToken demo_env 2000 None = Inl (json_error 401 ''Access token required'')"
    using login_and_token_verification [of demo_env 1000 good_login demo_token 2000 None] f(6)
    by blast
  have 6: "authenticateToken demo_env 2000 (bearer forged_token) =
      Inl (json_error 403 ''Invalid token'')"
    using login_and_token_verification [of demo_env 1000 good_login demo_token 2000
        "bearer forged_token" demo_claims forged_token] f(7,8,9)
    by blast
  from f 1 2 3 4 5 6 show ?thesis by blast
qed

text \<open>
  The claim as it is written has the handler answer 401 whenever the credentials are not
  the configured ones. A body with the right username and no password does not match and
  gets no token, and the answer is the validation error 400.
\<close>

theorem login_missing_password_counterexample:
  "\<not> credentials_match demo_env no_password \<and>
   post_auth_login demo_env 1000 no_password = json_errors 400 [''Password is required'']"
  by (simp add: credentials_match_def demo_env_def no_password_def post_auth_login_def
      notEmpty_def field_text_def)

section \<open>Properties of the attendance rates\<close>

lemma nat_digits_small: "n < 10 \<Longrightarrow> nat_digits n = [digit_char n]"
  by (simp add: nat_digits.simps)

lemma nat_digits_big:
  "10 \<le> n \<Longrightarrow> nat_digits n = nat_digits (n div 10) @ [digit_char (n mod 10)]"
  by (subst nat_digits.simps) simp

lemmas eval_digits = nat_digits_small nat_digits_big digit_char_def

lemma nat_digits_not_Nil: "nat_digits n \<noteq> []"
  by (subst nat_digits.simps) simp

lemma fixed_point_2: "fixed_point 2 n = two_decimals n"
proof -
  consider "n < 10" | "10 \<le> n" "n < 100" | "100 \<le> n" by linarith
  then show ?thesis
  proof cases
    case 1
    then show ?thesis
      by (simp add: fixed_point_def two_decimals_def nat_digits_small Let_def digit_char_def)
  next
    case 2
    then have "n div 10 < 10" "n div 100 = 0" by simp_all
    with 2 show ?thesis
      by (simp add: fixed_point_def two_decimals_def nat_digits_small nat_digits_big Let_def)
        (simp add: digit_char_def)
  next
    case 3
    then have "10 \<le> n" "10 \<le> n div 10" by simp_all
    moreover have "n div 10 div 10 = n div 100" by arith
    ultimately have d: "nat_digits n =
        nat_digits (n div 100) @ [digit_char (n div 10 mod 10), digit_char (n mod 10)]"
      by (simp add: nat_digits_big)
    have "0 < length (nat_digits (n div 100))"
      using nat_digits_not_Nil by simp
    then show ?thesis
      by (simp add: fixed_point_def two_decimals_def d Let_def)
  qed
qed

lemma normal_exponent_small:
  "0 < x \<Longrightarrow> x < 1 \<Longrightarrow> normal_exponent x = normal_exponent (2 * x) - 1"
  by (subst normal_exponent.simps) simp

lemma normal_exponent_big: "2 \<le> x \<Longrightarrow> normal_exponent x = normal_exponent (x / 2) + 1"
  by (subst normal_exponent.simps) simp

lemma normal_exponent_unit: "1 \<le> x \<Longrightarrow> x < 2 \<Longrightarrow> normal_exponent x = 0"
  by (subst normal_exponent.simps) simp

lemma normal_exponent_zero: "normal_exponent 0 = 0"
  by (subst normal_exponent.simps) simp

lemmas eval_binary64 = binary64_def js_div_def js_mul_def js_number_def round_half_even_def
  normal_exponent_small normal_exponent_big normal_exponent_unit normal_exponent_zero Let_def

text \<open>
  \<open>normal_exponent\<close> is the exponent of the power of two at or below a positive number,
  so \<open>binary64\<close> keeps 53 significant bits.
\<close>

lemma normal_exponent_bounds:
  "0 < x \<Longrightarrow> 2 powi normal_exponent x \<le> x \<and> x < 2 powi (normal_exponent x + 1)"
proof (induction x rule: normal_exponent.induct)
  case (1 x)
  have up: "(2::real) powi (k + 1) = 2 * 2 powi k" for k
    by (simp add: power_int_add)
  have down: "(2::real) powi (k - 1) = 2 powi k / 2" for k
    by (simp add: power_int_diff)
  consider (small) "x < 1" | (unit) "1 \<le> x" "x < 2" | (big) "2 \<le> x" by linarith
  then show ?case
  proof cases
    case small
    with 1 have "2 powi normal_exponent (2 * x) \<le> 2 * x \<and>
        2 * x < 2 powi (normal_exponent (2 * x) + 1)" by simp
    moreover have "normal_exponent x = normal_exponent (2 * x) - 1"
      using small 1 by (simp add: normal_exponent_small)
    ultimately show ?thesis by (simp add: up down)
  next
    case unit
    then show ?thesis by (simp add: normal_exponent_unit)
  next
    case big
    with 1 have "2 powi normal_exponent (x / 2) \<le> x / 2 \<and>
        x / 2 < 2 powi (normal_exponent (x / 2) + 1)" by simp
    moreover have "normal_exponent x = normal_exponent (x / 2) + 1"
      using big by (simp add: normal_exponent_big)
    ultimately show ?thesis
      using up [of "normal_exponent (x / 2)"] up [of "normal_exponent (x / 2) + 1"]
      by (simp only:) linarith
  qed
qed

lemma round_half_even_close: "\<bar>of_int (round_half_even y) - y\<bar> \<le> 1 / 2"
  unfolding round_half_even_def Let_def by (simp; linarith)

lemma round_half_even_of_int: "round_half_even (of_int z) = z"
  by (simp add: round_half_even_def)

text \<open>The relative error of rounding to a number is at most \<open>1 / 2 ^ 53\<close>.\<close>

lemma binary64_close: "0 \<le> x \<Longrightarrow> \<bar>binary64 x - x\<bar> \<le> x / 2 ^ 53"
proof (cases "x = 0")
  case True
  then show ?thesis by (simp add: binary64_def)
next
  case False
  assume "0 \<le> x"
  with False have x: "0 < x" by simp
  define s :: real where "s = 2 powi (normal_exponent x - 52)"
  define m :: real where "m = of_int (round_half_even (x / s))"
  have s: "0 < s" by (simp add: s_def)
  have "s = 2 powi normal_exponent x / 2 ^ 52"
    by (simp add: s_def power_int_diff)
  with normal_exponent_bounds [OF x] have le: "s \<le> x / 2 ^ 52"
    by (simp add: divide_right_mono)
  have "\<bar>m - x / s\<bar> \<le> 1 / 2"
    unfolding m_def by (rule round_half_even_close)
  then have "\<bar>m - x / s\<bar> * s \<le> 1 / 2 * s"
    using s by (simp only: mult_le_cancel_right_pos)
  moreover have "(m - x / s) * s = m * s - x"
    using s by (simp add: left_diff_distrib)
  then have "\<bar>m - x / s\<bar> * \<bar>s\<bar> = \<bar>m * s - x\<bar>"
    by (simp only: abs_mult [symmetric])
  then have "\<bar>m - x / s\<bar> * s = \<bar>m * s - x\<bar>"
    using s by simp
  ultimately have "\<bar>m * s - x\<bar> \<le> s / 2" by simp
  with le have "\<bar>m * s - x\<bar> \<le> x / 2 ^ 53" by simp
  moreover have "binary64 x = m * s"
    using x by (simp add: binary64_def s_def m_def Let_def)
  ultimately show ?thesis by simp
qed

lemma binary64_nonneg: "0 \<le> x \<Longrightarrow> 0 \<le> binary64 x"
proof -
  assume x: "0 \<le> x"
  have "x / 2 ^ 53 \<le> x" using x by (simp add: field_simps)
  with binary64_close [OF x] show ?thesis by linarith
qed

text \<open>A count below \<open>2 ^ 53\<close> is a number as it is.\<close>

lemma count_is_number:
  assumes "n < 2 ^ 53"
  shows "js_number n = real n"
proof (cases "n = 0")
  case True
  then show ?thesis by (simp add: js_number_def binary64_def)
next
  case False
  then have x: "0 < real n" by simp
  define e where "e = normal_exponent (real n)"
  have "2 powi e \<le> real n" using normal_exponent_bounds [OF x] by (simp add: e_def)
  also have "real n < 2 powi 53" using assms
    by (metis of_nat_less_iff of_nat_numeral of_nat_power power_int_numeral)
  finally have lt: "(2::real) powi e < 2 powi 53" .
  have "\<not> 53 \<le> e"
  proof
    assume "53 \<le> e"
    then have "(2::real) powi 53 \<le> 2 powi e"
      by (rule power_int_increasing) simp
    with lt show False by linarith
  qed
  then have "e < 53" by simp
  define k where "k = nat (52 - e)"
  have s: "(2::real) powi (e - 52) = 1 / 2 ^ k"
    using \<open>e < 53\<close> by (simp add: k_def power_int_def field_simps)
  have "real n / (1 / 2 ^ k) = of_int (int n * 2 ^ k)" by simp
  then have "round_half_even (real n / (1 / 2 ^ k)) = int n * 2 ^ k"
    by (simp only: round_half_even_of_int)
  then show ?thesis
    using x by (simp add: js_number_def binary64_def e_def [symmetric] s Let_def)
qed

lemma nearest_close: "0 \<le> x \<Longrightarrow> \<bar>real (nearest 2 x) / 100 - x\<bar> \<le> 1 / 200"
proof -
  assume x: "0 \<le> x"
  define z :: real where "z = of_int \<lfloor>x * 100 + 1 / 2\<rfloor>"
  have "0 \<le> \<lfloor>x * 100 + 1 / 2\<rfloor>" using x by simp
  then have n: "real (nat \<lfloor>x * 100 + 1 / 2\<rfloor>) = z" by (simp add: z_def)
  have 1: "z \<le> x * 100 + 1 / 2" and 2: "x * 100 + 1 / 2 < z + 1"
    unfolding z_def by linarith+
  from 1 have "z / 100 - x \<le> 1 / 200" by (simp add: field_simps)
  moreover from 2 have "- (1 / 200) \<le> z / 100 - x" by (simp add: field_simps)
  ultimately have "\<bar>z / 100 - x\<bar> \<le> 1 / 200" by linarith
  with n show ?thesis by (simp add: nearest_def)
qed

text \<open>
  The number that the handler formats: the quotient of the counts is rounded, and so is its
  product with 100, and the result stays within \<open>1 / 10 ^ 13\<close> of the percentage.
\<close>

lemma percentage_close:
  assumes "0 < t" "p \<le> t"
  shows "0 \<le> js_mul (js_div (real p) (real t)) 100 \<and>
    \<bar>js_mul (js_div (real p) (real t)) 100 - 100 * real p / real t\<bar> \<le> 1 / 10 ^ 13"
proof -
  define q where "q = real p / real t"
  define d1 where "d1 = binary64 q"
  define d2 where "d2 = binary64 (d1 * 100)"
  have q: "0 \<le> q" "q \<le> 1" using assms by (simp_all add: q_def)
  have d1: "0 \<le> d1" unfolding d1_def using q by (simp add: binary64_nonneg)
  have c1: "\<bar>d1 - q\<bar> \<le> q / 2 ^ 53"
    unfolding d1_def by (rule binary64_close [OF q(1)])
  have "q / 2 ^ 53 \<le> 1 / 2 ^ 53" using q by (simp add: divide_right_mono)
  with c1 have b1: "\<bar>d1 - q\<bar> \<le> 1 / 2 ^ 53" by linarith
  with q have u1: "d1 \<le> 1 + 1 / 2 ^ 53" by linarith
  have p2: "0 \<le> d1 * 100" using d1 by simp
  have c2: "\<bar>d2 - d1 * 100\<bar> \<le> d1 * 100 / 2 ^ 53"
    unfolding d2_def by (rule binary64_close [OF p2])
  have n2: "0 \<le> d2"
    unfolding d2_def by (rule binary64_nonneg [OF p2])
  have "d1 * 100 / 2 ^ 53 \<le> (1 + 1 / 2 ^ 53) * 100 / 2 ^ 53"
    using u1 by (simp add: divide_right_mono)
  with c2 have b2: "\<bar>d2 - d1 * 100\<bar> \<le> (1 + 1 / 2 ^ 53) * 100 / 2 ^ 53" by linarith
  have "\<bar>d2 - 100 * q\<bar> \<le> (1 + 1 / 2 ^ 53) * 100 / 2 ^ 53 + 100 / 2 ^ 53"
    using b1 b2 by linarith
  also have "\<dots> \<le> 1 / 10 ^ 13" by simp
  finally have "\<bar>d2 - 100 * q\<bar> \<le> 1 / 10 ^ 13" .
  with n2 show ?thesis
    by (simp add: d2_def d1_def q_def js_mul_def js_div_def)
qed

lemma rate_expression:
  assumes "0 < t" "p \<le> t" "t < 2 ^ 53"
  shows "percentage_text t p
    (String (toFixed 2 (js_mul (js_div (js_number p) (js_number t)) 100)))"
proof -
  define d where "d = js_mul (js_div (real p) (real t)) 100"
  from assms have "p < 2 ^ 53" by linarith
  then have numbers: "js_number p = real p" "js_number t = real t"
    using assms by (simp_all add: count_is_number)
  have nn: "0 \<le> d" and close: "\<bar>d - 100 * real p / real t\<bar> \<le> 1 / 10 ^ 13"
    using percentage_close [OF assms(1,2)] by (simp_all add: d_def)
  from nn have "\<not> d < 0" by linarith
  then have "toFixed 2 d = two_decimals (nearest 2 d)"
    by (simp add: toFixed_def fixed_point_2)
  moreover have "\<bar>real (nearest 2 d) / 100 - d\<bar> \<le> 1 / 200"
    by (rule nearest_close [OF nn])
  ultimately show ?thesis
    unfolding percentage_text_def numbers d_def [symmetric] using close by blast
qed

lemma student_counts:
  "present_classes db sid \<le> total_classes db sid"
  "total_classes db sid \<le> length (attendance db)"
  "(0 < total_classes db sid) = (sid \<in> set (map a_student_id (attendance db)))"
proof -
  show "present_classes db sid \<le> total_classes db sid"
    unfolding present_classes_def total_classes_def by (rule length_filter_le)
  show "total_classes db sid \<le> length (attendance db)"
    unfolding total_classes_def by (rule length_filter_le)
  show "(0 < total_classes db sid) = (sid \<in> set (map a_student_id (attendance db)))"
    by (auto simp: total_classes_def filter_empty_conv)
qed

text \<open>
  The rounding shows: 23 present marks out of 160 are 14.375 percent, the quotient 23 / 160
  rounds down, the product with 100 is the number 14.374999999999998, and the handler
  returns 14.37.
\<close>

lemma attendanceRate_23_of_160:
  "js_mul (js_div (js_number 23) (js_number 160)) 100 = 8092405580431359 / 2 ^ 49 \<and>
   attendanceRate 160 23 = String ''14.37''"
  by (simp add: attendanceRate_def toFixed_def nearest_def fixed_point_def eval_digits
      eval_binary64)

text \<open>
  Claim C6, as the code has it. When the total is positive, the rate of a student is a text
  with two decimals that gives the percentage \<open>100 * present / total\<close> as the handler
  computes it in double precision, rounded to the nearest hundredth. When the total is 0 it
  is the number 0; this is the case of a student with no attendance row at all. The overall
  rate of the dashboard is computed the same way over the whole table. The counts are
  below \<open>2 ^ 53\<close> (the key of the table is an \<open>INT\<close>), and no more marks are present than
  there are marks.
\<close>

theorem attendance_rate_is_percentage:
  "(0 < t \<and> p \<le> t \<and> t < 2 ^ 53 \<longrightarrow> percentage_text t p (attendanceRate t p)) \<and>
   attendanceRate 0 p = Number 0 \<and>
   (sid \<notin> set (map a_student_id (attendance db)) \<longrightarrow>
      attendanceRate (total_classes db sid) (present_classes db sid) = Number 0) \<and>
   (sid \<in> set (map a_student_id (attendance db)) \<and> length (attendance db) < 2 ^ 53 \<longrightarrow>
      percentage_text (total_classes db sid) (present_classes db sid)
        (attendanceRate (total_classes db sid) (present_classes db sid))) \<and>
   (attendance db \<noteq> [] \<and> length (attendance db) < 2 ^ 53 \<longrightarrow>
      percentage_text (length (attendance db))
        (length (filter (\<lambda>a. a_status a = present) (attendance db)))
        (overallAttendanceRate db)) \<and>
   (attendance db = [] \<longrightarrow> overallAttendanceRate db = Number 0)"
proof (intro conjI impI)
  show "percentage_text t p (attendanceRate t p)" if "0 < t \<and> p \<le> t \<and> t < 2 ^ 53"
    using that rate_expression [of t p] by (simp add: attendanceRate_def)
  show "attendanceRate 0 p = Number 0"
    by (simp add: attendanceRate_def)
  show "attendanceRate (total_classes db sid) (present_classes db sid) = Number 0"
    if "sid \<notin> set (map a_student_id (attendance db))"
    using that student_counts(3) [of db sid] by (simp add: attendanceRate_def)
  show "percentage_text (total_classes db sid) (present_classes db sid)
      (attendanceRate (total_classes db sid) (present_classes db sid))"
    if "sid \<in> set (map a_student_id (attendance db)) \<and> length (attendance db) < 2 ^ 53"
  proof -
    from that have "0 < total_classes db sid" "total_classes db sid < 2 ^ 53"
      using student_counts(2,3) [of db sid] by simp_all
    then show ?thesis
      using rate_expression [OF _ student_counts(1), of db sid]
      by (simp add: attendanceRate_def)
  qed
  show "percentage_text (length (attendance db))
      (length (filter (\<lambda>a. a_status a = present) (attendance db))) (overallAttendanceRate db)"
    if "attendance db \<noteq> [] \<and> length (attendance db) < 2 ^ 53"
    using that
      rate_expression [of "length (attendance db)"
        "length (filter (\<lambda>a. a_status a = present) (attendance db))"]
    by (simp add: overallAttendanceRate_def Let_def)
  show "overallAttendanceRate db = Number 0" if "attendance db = []"
    using that by (simp add: overallAttendanceRate_def)
qed

theorem attendance_rate_is_percentage_witness:
  "(0::nat) < 3 \<and> (2::nat) \<le> 3 \<and> (3::nat) < 2 ^ 53 \<and>
   percentage_text 3 2 (attendanceRate 3 2) \<and>
   attendanceRate 3 2 = String ''66.67'' \<and>
   ''S1'' \<notin> set (map a_student_id (attendance week_db)) \<and>
   attendanceRate (total_classes week_db ''S1'') (present_classes week_db ''S1'') = Number 0 \<and>
   ''S2'' \<in> set (map a_student_id (attendance week_db)) \<and>
   length (attendance week_db) < 2 ^ 53 \<and>
   percentage_text 1 1 (attendanceRate 1 1) \<and>
   attendanceRate (total_classes week_db ''S2'') (present_classes week_db ''S2'') =
     String ''100.00'' \<and>
   attendance week_db \<noteq> [] \<and>
   percentage_text 3 2 (overallAttendanceRate week_db) \<and>
   attendance demo_db = [] \<and> overallAttendanceRate demo_db = Number 0"
proof -
  have a: "''S1'' \<notin> set (map a_student_id (attendance week_db))"
    "''S2'' \<in> set (map a_student_id (attendance week_db))"
    by (simp_all add: week_db_def)
  have b: "attendance week_db \<noteq> []" "attendance demo_db = []"
    by (simp_all add: week_db_def demo_db_def)
  have c: "length (attendance week_db) = 3"
    "length (filter (\<lambda>a. a_status a = present) (attendance week_db)) = 2"
    "total_classes week_db ''S2'' = 1" "present_classes week_db ''S2'' = 1"
    by (simp_all add: week_db_def total_classes_def present_classes_def)
  have d: "attendanceRate 3 2 = String ''66.67''" "attendanceRate 1 1 = String ''100.00''"
    by (simp_all add: attendanceRate_def toFixed_def nearest_def fixed_point_def eval_digits
        eval_binary64)
  have e: "percentage_text 3 2 (attendanceRate 3 2)"
    "attendanceRate (total_classes week_db ''S1'') (present_classes week_db ''S1'') = Number 0"
    "percentage_text 3 2 (overallAttendanceRate week_db)"
    using a b c attendance_rate_is_percentage [of 3 2 "''S1''" week_db] by simp_all
  have f: "percentage_text 1 1 (attendanceRate 1 1)"
    using a c attendance_rate_is_percentage [of 3 2 "''S2''" week_db] by simp
  have g: "overallAttendanceRate demo_db = Number 0"
    using b attendance_rate_is_percentage [of 3 2 "''S1''" demo_db] by simp
  show ?thesis
    using a b c d e f g by simp
qed

text \<open>
  The claim as it is written gives the rate as \<open>present/total\<close> rounded to 2 decimals. For
  one present mark out of two that is 0.50; the handler returns the text 50.00.
\<close>

theorem attendance_rate_scale_counterexample:
  "attendanceRate 2 1 = String ''50.00'' \<and> spec_rate 2 1 = String ''0.50''"
  by (simp add: attendanceRate_def spec_rate_def toFixed_def nearest_def fixed_point_def
      eval_digits eval_binary64)

section \<open>Properties of the attendance report\<close>

lemma descending_less: "(descending d1 < descending d2) = (d2 < d1)"
  by (cases d1; cases d2) (auto simp: descending_def)

lemma descending_eq: "(descending d1 = descending d2) = (d1 = d2)"
  by (cases d1; cases d2) (auto simp: descending_def)

lemma lex_triple:
  "((a1 :: 'a :: linorder, b1 :: 'b :: linorder, c1 :: 'c :: linorder) \<le> (a2, b2, c2)) =
   (a1 < a2 \<or> (a1 = a2 \<and> (b1 < b2 \<or> (b1 = b2 \<and> c1 \<le> c2))))"
  by auto

lemma order_by_le: "(order_by r1 \<le> order_by r2) = report_before r1 r2"
  by (simp only: order_by_def report_before_def lex_triple descending_less descending_eq)

text \<open>
  The rows that pass the conditions of the query, written over the three tables: a mark,
  the student with its student id and the class with its class id, where the date of the
  class lies in the range and the student is the one asked for.
\<close>

lemma filter_join:
  "filter P [f a s c. a \<leftarrow> A, s \<leftarrow> S, p1 s a, c \<leftarrow> C, p2 c a] =
   [f a s c. a \<leftarrow> A, s \<leftarrow> S, p1 s a, c \<leftarrow> C, p2 c a, P (f a s c)]"
  by (simp add: filter_concat comp_def filter_map if_distrib [of "filter P"] cong: if_cong)

lemma set_join:
  "(r \<in> set [f a s c. a \<leftarrow> A, s \<leftarrow> S, p1 s a, c \<leftarrow> C, p2 c a, Q a s c]) =
   (\<exists>a s c. a \<in> set A \<and> s \<in> set S \<and> c \<in> set C \<and> p1 s a \<and> p2 c a \<and> Q a s c \<and>
      r = f a s c)"
  by auto

lemma report_rows:
  "filter (report_where \<lparr>startDate = Some d1, endDate = Some d2, studentId = sid\<rparr>)
     (joined_rows db) =
   [\<lparr>r_student_id = student_id s, r_name = name s, r_class_name = class_name c,
      r_date = class_date c, r_start_time = start_time c, r_end_time = end_time c,
      r_status = a_status a, r_marked_at = marked_at a\<rparr>.
      a \<leftarrow> attendance db,
      s \<leftarrow> students db, student_id s = a_student_id a,
      c \<leftarrow> classes db, c_id c = a_class_id a,
      d1 \<le> class_date c \<and> class_date c \<le> d2 \<and> (missing sid \<or> sid = Some (student_id s))]"
  unfolding joined_rows_def filter_join
  by (simp add: report_where_def joined_row_def cong: if_cong)

text \<open>
  Claim C7. For every start date, end date and optional student id: a row is in the report
  exactly when it is made of a row \<open>a\<close> of the table of attendance, a row \<open>s\<close> of the
  students with the student id of \<open>a\<close> and a row \<open>c\<close> of the classes with the class id of
  \<open>a\<close>, such that the date of \<open>c\<close> lies between the two dates, both included, and \<open>s\<close> is
  the student asked for when one is given; the report holds each such row as often as the
  three tables yield it; and its rows are in the order date descending, start time
  ascending, student name ascending.
\<close>

theorem attendance_report_range_and_order:
  "(r \<in> set (attendance_report \<lparr>startDate = Some d1, endDate = Some d2, studentId = sid\<rparr> db)) =
     (\<exists>a s c. a \<in> set (attendance db) \<and> s \<in> set (students db) \<and> c \<in> set (classes db) \<and>
        student_id s = a_student_id a \<and> c_id c = a_class_id a \<and>
        d1 \<le> class_date c \<and> class_date c \<le> d2 \<and>
        (missing sid \<or> sid = Some (student_id s)) \<and>
        r = \<lparr>r_student_id = student_id s, r_name = name s, r_class_name = class_name c,
             r_date = class_date c, r_start_time = start_time c, r_end_time = end_time c,
             r_status = a_status a, r_marked_at = marked_at a\<rparr>) \<and>
   mset (attendance_report \<lparr>startDate = Some d1, endDate = Some d2, studentId = sid\<rparr> db) =
     mset [\<lparr>r_student_id = student_id s, r_name = name s, r_class_name = class_name c,
             r_date = class_date c, r_start_time = start_time c, r_end_time = end_time c,
             r_status = a_status a, r_marked_at = marked_at a\<rparr>.
           a \<leftarrow> attendance db,
           s \<leftarrow> students db, student_id s = a_student_id a,
           c \<leftarrow> classes db, c_id c = a_class_id a,
           d1 \<le> class_date c \<and> class_date c \<le> d2 \<and>
           (missing sid \<or> sid = Some (student_id s))] \<and>
   sorted_wrt report_before
     (attendance_report \<lparr>startDate = Some d1, endDate = Some d2, studentId = sid\<rparr> db)"
proof (intro conjI)
  let ?q = "\<lparr>startDate = Some d1, endDate = Some d2, studentId = sid\<rparr>"
  have rows: "set (attendance_report ?q db) = set (filter (report_where ?q) (joined_rows db))"
    by (simp add: attendance_report_def)
  show "(r \<in> set (attendance_report ?q db)) =
     (\<exists>a s c. a \<in> set (attendance db) \<and> s \<in> set (students db) \<and> c \<in> set (classes db) \<and>
        student_id s = a_student_id a \<and> c_id c = a_class_id a \<and>
        d1 \<le> class_date c \<and> class_date c \<le> d2 \<and>
        (missing sid \<or> sid = Some (student_id s)) \<and>
        r = \<lparr>r_student_id = student_id s, r_name = name s, r_class_name = class_name c,
             r_date = class_date c, r_start_time = start_time c, r_end_time = end_time c,
             r_status = a_status a, r_marked_at = marked_at a\<rparr>)"
    unfolding rows report_rows set_join by blast
  have "mset (attendance_report ?q db) = mset (filter (report_where ?q) (joined_rows db))"
    by (simp add: attendance_report_def)
  then show "mset (attendance_report ?q db) =
     mset [\<lparr>r_student_id = student_id s, r_name = name s, r_class_name = class_name c,
             r_date = class_date c, r_start_time = start_time c, r_end_time = end_time c,
             r_status = a_status a, r_marked_at = marked_at a\<rparr>.
           a \<leftarrow> attendance db,
           s \<leftarrow> students db, student_id s = a_student_id a,
           c \<leftarrow> classes db, c_id c = a_class_id a,
           d1 \<le> class_date c \<and> class_date c \<le> d2 \<and>
           (missing sid \<or> sid = Some (student_id s))]"
    unfolding report_rows .
  have "sorted (map order_by (attendance_report ?q db))"
    by (simp add: attendance_report_def)
  then show "sorted_wrt report_before (attendance_report ?q db)"
    by (simp add: sorted_map order_by_le)
qed

text \<open>
  The report of March over \<open>term_db\<close>: the class of April and the mark of the unknown
  student are left out, the class of 4 March comes first, and on 1 March the class at
  09:00 comes before the class at 11:00, Ann before Bob. With the student id S1 and the
  single day 1 March the report holds the two marks of Bob on that day.
\<close>

lemma march_report:
  "get_reports_attendance False
     \<lparr>startDate = Some (2024, 3, 1), endDate = Some (2024, 3, 31), studentId = None\<rparr> term_db =
   json 200
    [\<lparr>r_student_id = ''S2'', r_name = ''Ann'', r_class_name = ''Chemistry 301'',
      r_date = (2024, 3, 4), r_start_time = 32400, r_end_time = 37800,
      r_status = present, r_marked_at = 300\<rparr>,
     \<lparr>r_student_id = ''S2'', r_name = ''Ann'', r_class_name = ''Mathematics 101'',
      r_date = (2024, 3, 1), r_start_time = 32400, r_end_time = 37800,
      r_status = absent, r_marked_at = 101\<rparr>,
     \<lparr>r_student_id = ''S1'', r_name = ''Bob'', r_class_name = ''Mathematics 101'',
      r_date = (2024, 3, 1), r_start_time = 32400, r_end_time = 37800,
      r_status = present, r_marked_at = 100\<rparr>,
     \<lparr>r_student_id = ''S1'', r_name = ''Bob'', r_class_name = ''Physics 201'',
      r_date = (2024, 3, 1), r_start_time = 39600, r_end_time = 45000,
      r_status = absent, r_marked_at = 200\<rparr>]"
  by (simp add: get_reports_attendance_def attendance_report_def joined_rows_def joined_row_def
      report_where_def term_db_def demo_class_def missing_def field_text_def order_by_def
      descending_def)

lemma march_report_of_student:
  "get_reports_attendance False
     \<lparr>startDate = Some (2024, 3, 1), endDate = Some (2024, 3, 1), studentId = Some ''S1''\<rparr>
     term_db =
   json 200
    [\<lparr>r_student_id = ''S1'', r_name = ''Bob'', r_class_name = ''Mathematics 101'',
      r_date = (2024, 3, 1), r_start_time = 32400, r_end_time = 37800,
      r_status = present, r_marked_at = 100\<rparr>,
     \<lparr>r_student_id = ''S1'', r_name = ''Bob'', r_class_name = ''Physics 201'',
      r_date = (2024, 3, 1), r_start_time = 39600, r_end_time = 45000,
      r_status = absent, r_marked_at = 200\<rparr>]"
  by (simp add: get_reports_attendance_def attendance_report_def joined_rows_def joined_row_def
      report_where_def term_db_def demo_class_def missing_def field_text_def order_by_def
      descending_def)

section \<open>Properties of the class scheduling resolver\<close>

subsection \<open>Formatted texts compare as the values they write\<close>

lemma of_char_digit_char: "i < 10 \<Longrightarrow> (of_char (digit_char i) :: nat) = 48 + i"
proof -
  assume "i < 10"
  then have "i \<in> {0, 1, 2, 3, 4, 5, 6, 7, 8, 9}" by auto
  then show ?thesis by (auto simp: digit_char_def)
qed

lemma digit_char_less: "i < 10 \<Longrightarrow> j < 10 \<Longrightarrow> (digit_char i < digit_char j) = (i < j)"
  by (simp add: less_char_def of_char_digit_char)

lemma digit_char_eq: "i < 10 \<Longrightarrow> j < 10 \<Longrightarrow> (digit_char i = digit_char j) = (i = j)"
proof
  assume "i < 10" "j < 10" "digit_char i = digit_char j"
  then have "(of_char (digit_char i) :: nat) = of_char (digit_char j)" by simp
  with \<open>i < 10\<close> \<open>j < 10\<close> show "i = j" by (simp add: of_char_digit_char)
qed simp

lemma pad2: "n < 100 \<Longrightarrow> padStart 2 (nat_digits n) = [digit_char (n div 10), digit_char (n mod 10)]"
proof (cases "n < 10")
  case True
  then show ?thesis by (simp add: padStart_def nat_digits_small digit_char_def)
next
  case False
  assume "n < 100"
  with False have "10 \<le> n" "n div 10 < 10" by simp_all
  then show ?thesis by (simp add: padStart_def nat_digits_small nat_digits_big)
qed

lemma clock_text_chars:
  assumes "t < 86400"
  shows "clock_text t =
     [digit_char (t div 3600 div 10), digit_char (t div 3600 mod 10), CHR '':'',
      digit_char (t div 60 mod 60 div 10), digit_char (t div 60 mod 60 mod 10), CHR '':'',
      digit_char (t mod 60 div 10), digit_char (t mod 60 mod 10)]"
proof -
  from assms have "t div 3600 < 100" by simp
  moreover have "t div 60 mod 60 < 100" "t mod 60 < 100"
    by (simp_all add: less_trans [OF mod_less_divisor])
  ultimately show ?thesis by (simp add: clock_text_def pad2)
qed


lemma lex10:
  fixes q r :: nat
  assumes "r < 10" "r' < 10"
  shows "(q < q' \<or> q = q' \<and> r < r') = (10 * q + r < 10 * q' + r')"
  using assms by auto

lemma lex10_eq:
  fixes q r :: nat
  assumes "r < 10" "r' < 10"
  shows "(q = q' \<and> r = r') = (10 * q + r = 10 * q' + r')"
proof (cases "q = q'")
  case True
  then show ?thesis by simp
next
  case False
  then have "q < q' \<or> q' < q" by arith
  with assms False show ?thesis by auto
qed

lemma two_lex:
  fixes n n' :: nat
  shows "(n div 10 < n' div 10 \<or>
          n div 10 = n' div 10 \<and> (n mod 10 < n' mod 10 \<or> n mod 10 = n' mod 10 \<and> R)) =
         (n < n' \<or> n = n' \<and> R)"
proof -
  have 1: "(n div 10 < n' div 10 \<or> n div 10 = n' div 10 \<and> n mod 10 < n' mod 10) = (n < n')"
    using lex10 [of "n mod 10" "n' mod 10" "n div 10" "n' div 10"] by simp
  have 2: "(n div 10 = n' div 10 \<and> n mod 10 = n' mod 10) = (n = n')"
    using lex10_eq [of "n mod 10" "n' mod 10" "n div 10" "n' div 10"] by simp
  from 1 2 show ?thesis by blast
qed

lemma two_lex_le:
  fixes n n' :: nat
  shows "(n div 10 < n' div 10 \<or> n div 10 = n' div 10 \<and> n mod 10 \<le> n' mod 10) = (n \<le> n')"
  using two_lex [of n n' True] by (auto simp: le_less)

lemma clock_value: "(t::nat) = 3600 * (t div 3600) + 60 * (t div 60 mod 60) + t mod 60"
proof -
  have "t div 60 div 60 = t div 3600" by (simp add: div_mult2_eq [symmetric])
  moreover have "t div 60 = 60 * (t div 60 div 60) + t div 60 mod 60" by simp
  moreover have "t = 60 * (t div 60) + t mod 60" by simp
  ultimately show ?thesis by linarith
qed

lemma lex_hms:
  fixes h m s :: nat
  assumes "m < 60" "s < 60" "m' < 60" "s' < 60"
  shows "(h < h' \<or> h = h' \<and> (m < m' \<or> m = m' \<and> s \<le> s')) =
         (3600 * h + 60 * m + s \<le> 3600 * h' + 60 * m' + s')"
  using assms by auto

lemma clock_lex:
  fixes t t' :: nat
  shows "(t div 3600 < t' div 3600 \<or> t div 3600 = t' div 3600 \<and>
          (t div 60 mod 60 < t' div 60 mod 60 \<or> t div 60 mod 60 = t' div 60 mod 60 \<and>
           t mod 60 \<le> t' mod 60)) = (t \<le> t')"
proof -
  have "(3600 * (t div 3600) + 60 * (t div 60 mod 60) + t mod 60
         \<le> 3600 * (t' div 3600) + 60 * (t' div 60 mod 60) + t' mod 60) = (t \<le> t')"
    using clock_value [of t] clock_value [of t'] by simp
  then show ?thesis
    using lex_hms [of "t div 60 mod 60" "t mod 60" "t' div 60 mod 60" "t' mod 60"
        "t div 3600" "t' div 3600"]
    by simp
qed


lemma clock_text_le:
  assumes "a < 86400" "b < 86400"
  shows "(clock_text a \<le> clock_text b) = (a \<le> b)"
proof -
  define h m s where "h = a div 3600" and "m = a div 60 mod 60" and "s = a mod 60"
  define h' m' s' where "h' = b div 3600" and "m' = b div 60 mod 60" and "s' = b mod 60"
  have small: "h div 10 < 10" "m div 10 < 10" "s div 10 < 10"
    "h' div 10 < 10" "m' div 10 < 10" "s' div 10 < 10"
    using assms by (simp_all add: h_def m_def s_def h'_def m'_def s'_def div_less_iff_less_mult)
  have ta: "clock_text a =
     [digit_char (h div 10), digit_char (h mod 10), CHR '':'',
      digit_char (m div 10), digit_char (m mod 10), CHR '':'',
      digit_char (s div 10), digit_char (s mod 10)]"
    using clock_text_chars [OF assms(1)] by (simp add: h_def m_def s_def)
  have tb: "clock_text b =
     [digit_char (h' div 10), digit_char (h' mod 10), CHR '':'',
      digit_char (m' div 10), digit_char (m' mod 10), CHR '':'',
      digit_char (s' div 10), digit_char (s' mod 10)]"
    using clock_text_chars [OF assms(2)] by (simp add: h'_def m'_def s'_def)
  have "(clock_text a \<le> clock_text b) =
     (h div 10 < h' div 10 \<or> h div 10 = h' div 10 \<and>
      (h mod 10 < h' mod 10 \<or> h mod 10 = h' mod 10 \<and>
       (m div 10 < m' div 10 \<or> m div 10 = m' div 10 \<and>
        (m mod 10 < m' mod 10 \<or> m mod 10 = m' mod 10 \<and>
         (s div 10 < s' div 10 \<or> s div 10 = s' div 10 \<and> s mod 10 \<le> s' mod 10)))))"
    unfolding ta tb using small
    by (simp add: digit_char_less digit_char_eq le_less) blast
  also have "\<dots> = (h < h' \<or> h = h' \<and> (m < m' \<or> m = m' \<and> s \<le> s'))"
    by (simp only: two_lex two_lex_le)
  also have "\<dots> = (a \<le> b)"
    unfolding h_def m_def s_def h'_def m'_def s'_def by (rule clock_lex)
  finally show ?thesis .
qed

lemma clock_text_less:
  assumes "a < 86400" "b < 86400"
  shows "(clock_text a < clock_text b) = (a < b)"
  using clock_text_le [OF assms(2) assms(1)] by (simp add: not_le [symmetric])


lemma two_eq:
  fixes n n' :: nat
  shows "(n div 10 = n' div 10 \<and> n mod 10 = n' mod 10) = (n = n')"
  using lex10_eq [of "n mod 10" "n' mod 10" "n div 10" "n' div 10"] by simp

lemma pad2_eq:
  assumes "m < 100" "m' < 100"
  shows "(padStart 2 (nat_digits m) = padStart 2 (nat_digits m')) = (m = m')"
proof -
  have "m div 10 < 10" "m' div 10 < 10" using assms by simp_all
  then show ?thesis
    using two_eq [of m m'] by (simp add: pad2 assms digit_char_eq)
qed

lemma length_pad2: "m < 100 \<Longrightarrow> length (padStart 2 (nat_digits m)) = 2"
  by (simp add: pad2)

lemma digit_char_not_dash: "digit_char i \<noteq> CHR ''-''"
proof
  assume "digit_char i = CHR ''-''"
  moreover have "digit_char i = digit_char (i mod 10)" by (simp add: digit_char_def)
  ultimately have "(of_char (digit_char (i mod 10)) :: nat) = of_char CHR ''-''" by simp
  then show False by (simp add: of_char_digit_char)
qed

lemma dash_notin_nat_digits: "CHR ''-'' \<notin> set (nat_digits n)"
proof (induction n rule: nat_digits.induct)
  case (1 n)
  show ?case
  proof (cases "n < 10")
    case True
    then show ?thesis using digit_char_not_dash [of n] by (simp add: nat_digits_small)
  next
    case False
    with 1 show ?thesis
      using digit_char_not_dash [of "n mod 10"] by (simp add: nat_digits_big)
  qed
qed

lemma nat_digits_inj: "nat_digits a = nat_digits b \<Longrightarrow> a = b"
proof (induction a arbitrary: b rule: nat_digits.induct)
  case (1 n)
  show ?case
  proof (cases "n < 10")
    case small: True
    show ?thesis
    proof (cases "b < 10")
      case True
      with small "1.prems" show ?thesis by (simp add: nat_digits_small digit_char_eq)
    next
      case False
      then have "nat_digits b = nat_digits (b div 10) @ [digit_char (b mod 10)]"
        by (simp add: nat_digits_big)
      with small "1.prems" nat_digits_not_Nil [of "b div 10"] show ?thesis
        by (simp add: nat_digits_small)
    qed
  next
    case big: False
    then have n: "nat_digits n = nat_digits (n div 10) @ [digit_char (n mod 10)]"
      by (simp add: nat_digits_big)
    show ?thesis
    proof (cases "b < 10")
      case True
      with n "1.prems" nat_digits_not_Nil [of "n div 10"] show ?thesis
        by (simp add: nat_digits_small)
    next
      case False
      then have "nat_digits b = nat_digits (b div 10) @ [digit_char (b mod 10)]"
        by (simp add: nat_digits_big)
      with n "1.prems" have "nat_digits (n div 10) = nat_digits (b div 10)"
        and "digit_char (n mod 10) = digit_char (b mod 10)" by simp_all
      with "1.IH" [OF big] have "n div 10 = b div 10" "n mod 10 = b mod 10"
        by (simp_all add: digit_char_eq)
      then show ?thesis using two_eq by blast
    qed
  qed
qed

lemma pad4_year: "1000 \<le> y \<Longrightarrow> padStart 4 (nat_digits y) = nat_digits y"
proof -
  assume y: "1000 \<le> y"
  then have "10 \<le> y" "10 \<le> y div 10" "10 \<le> y div 10 div 10" by simp_all
  then have "nat_digits y = nat_digits (y div 10 div 10 div 10) @
      [digit_char (y div 10 div 10 mod 10), digit_char (y div 10 mod 10), digit_char (y mod 10)]"
    by (simp add: nat_digits_big)
  then have "4 \<le> length (nat_digits y)"
    using nat_digits_not_Nil [of "y div 10 div 10 div 10"]
    by (cases "nat_digits (y div 10 div 10 div 10)") simp_all
  then show ?thesis by (simp add: padStart_def)
qed

lemma split_at_first:
  "x \<notin> set xs \<Longrightarrow> x \<notin> set xs' \<Longrightarrow> (xs @ x # ys = xs' @ x # ys') = (xs = xs' \<and> ys = ys')"
proof (induction xs arbitrary: xs')
  case Nil
  then show ?case by (cases xs') auto
next
  case (Cons a xs)
  then show ?case by (cases xs') auto
qed

lemma date_text_eq:
  assumes "1000 \<le> y" "m < 100" "d < 100" "m' < 100" "d' < 100"
  shows "(DATE_FORMAT (y, m, d) =
            nat_digits y' @ ''-'' @ padStart 2 (nat_digits m') @ ''-'' @
            padStart 2 (nat_digits d')) = ((y, m, d) = (y', m', d'))"
proof -
  have "(DATE_FORMAT (y, m, d) =
            nat_digits y' @ ''-'' @ padStart 2 (nat_digits m') @ ''-'' @
            padStart 2 (nat_digits d')) =
        (nat_digits y = nat_digits y' \<and>
         padStart 2 (nat_digits m) @ CHR ''-'' # padStart 2 (nat_digits d) =
         padStart 2 (nat_digits m') @ CHR ''-'' # padStart 2 (nat_digits d'))"
    using assms(1)
    by (simp add: DATE_FORMAT_def pad4_year
        split_at_first [OF dash_notin_nat_digits dash_notin_nat_digits])
  also have "\<dots> = (nat_digits y = nat_digits y' \<and>
       padStart 2 (nat_digits m) = padStart 2 (nat_digits m') \<and>
       padStart 2 (nat_digits d) = padStart 2 (nat_digits d'))"
    using assms by (simp add: length_pad2)
  also have "\<dots> = ((y, m, d) = (y', m', d'))"
    using assms nat_digits_inj [of y y'] by (auto simp: pad2_eq)
  finally show ?thesis .
qed


subsection \<open>The two lookups on numbers\<close>

lemma date_matches:
  assumes "plausible_now now" "plausible_class c"
  shows "(DATE_FORMAT (class_date c) = js_date_text now) = (class_date c = local_date now)"
proof -
  obtain y m d where c: "class_date c = (y, m, d)" by (cases "class_date c") auto
  with assms have "1000 \<le> y" "m < 100" "d < 100" "getMonth now + 1 < 100" "getDate now < 100"
    by (simp_all add: plausible_class_def plausible_now_def)
  from date_text_eq [OF this, of "getFullYear now"] c show ?thesis
    by (simp add: js_date_text_def local_date_def)
qed

lemma current_classes_numeric:
  assumes "plausible_now now" "list_all plausible_class (classes db)"
  shows "current_classes (js_date_text now) (toTimeString_slice_0_8 now) db =
         take 1 (sort_key start_time (filter (in_progress now) (classes db)))"
proof -
  have "filter (\<lambda>c. DATE_FORMAT (class_date c) = js_date_text now \<and>
                    TIME_FORMAT (start_time c) \<le> toTimeString_slice_0_8 now \<and>
                    toTimeString_slice_0_8 now \<le> TIME_FORMAT (end_time c)) (classes db) =
        filter (in_progress now) (classes db)"
  proof (rule filter_cong [OF refl])
    fix c assume "c \<in> set (classes db)"
    with assms(2) have p: "plausible_class c" by (simp add: list_all_iff)
    then have "start_time c < 86400" "end_time c < 86400" by (simp_all add: plausible_class_def)
    moreover from assms(1) have "seconds_since_midnight now < 86400"
      by (simp add: plausible_now_def)
    ultimately show "(DATE_FORMAT (class_date c) = js_date_text now \<and>
                    TIME_FORMAT (start_time c) \<le> toTimeString_slice_0_8 now \<and>
                    toTimeString_slice_0_8 now \<le> TIME_FORMAT (end_time c)) = in_progress now c"
      by (simp add: date_matches [OF assms(1) p] TIME_FORMAT_def toTimeString_slice_0_8_def
          clock_text_le in_progress_def)
  qed
  then show ?thesis by (simp add: current_classes_def)
qed

lemma upcoming_classes_numeric:
  assumes "plausible_now now" "list_all plausible_class (classes db)"
  shows "upcoming_classes (js_date_text now) (toTimeString_slice_0_8 now)
           (toTimeString_slice_0_8 (plus_one_hour now)) db =
         (if seconds_since_midnight now + 60 * 60 < 86400
          then take 1 (sort_key start_time (filter (starts_within_hour now) (classes db)))
          else [])"
proof -
  from assms(1) have s: "seconds_since_midnight now < 86400" by (simp add: plausible_now_def)
  have n: "(seconds_since_midnight now + 60 * 60) mod 86400 < 86400" by simp
  have "filter (\<lambda>c. DATE_FORMAT (class_date c) = js_date_text now \<and>
                    toTimeString_slice_0_8 now < TIME_FORMAT (start_time c) \<and>
                    TIME_FORMAT (start_time c) \<le> toTimeString_slice_0_8 (plus_one_hour now))
          (classes db) =
        filter (\<lambda>c. class_date c = local_date now \<and> seconds_since_midnight now < start_time c \<and>
                    start_time c \<le> (seconds_since_midnight now + 60 * 60) mod 86400)
          (classes db)"
  proof (rule filter_cong [OF refl])
    fix c assume "c \<in> set (classes db)"
    with assms(2) have p: "plausible_class c" by (simp add: list_all_iff)
    then have "start_time c < 86400" by (simp add: plausible_class_def)
    with s n show "(DATE_FORMAT (class_date c) = js_date_text now \<and>
                    toTimeString_slice_0_8 now < TIME_FORMAT (start_time c) \<and>
                    TIME_FORMAT (start_time c) \<le> toTimeString_slice_0_8 (plus_one_hour now)) =
                   (class_date c = local_date now \<and> seconds_since_midnight now < start_time c \<and>
                    start_time c \<le> (seconds_since_midnight now + 60 * 60) mod 86400)"
      by (simp add: date_matches [OF assms(1) p] TIME_FORMAT_def toTimeString_slice_0_8_def
          plus_one_hour_def clock_text_le clock_text_less)
  qed
  then have u: "upcoming_classes (js_date_text now) (toTimeString_slice_0_8 now)
           (toTimeString_slice_0_8 (plus_one_hour now)) db =
      take 1 (sort_key start_time
        (filter (\<lambda>c. class_date c = local_date now \<and> seconds_since_midnight now < start_time c \<and>
                    start_time c \<le> (seconds_since_midnight now + 60 * 60) mod 86400)
          (classes db)))"
    by (simp add: upcoming_classes_def)
  show ?thesis
  proof (cases "seconds_since_midnight now + 60 * 60 < 86400")
    case True
    with u show ?thesis by (simp add: starts_within_hour_def [abs_def])
  next
    case False
    with s have "(seconds_since_midnight now + 60 * 60) mod 86400 =
        seconds_since_midnight now + 60 * 60 - 86400"
      by (simp add: mod_if)
    with s have "\<And>c. \<not> (seconds_since_midnight now < start_time c \<and>
        start_time c \<le> (seconds_since_midnight now + 60 * 60) mod 86400)"
      by simp arith
    then have "filter (\<lambda>c. class_date c = local_date now \<and>
                    seconds_since_midnight now < start_time c \<and>
                    start_time c \<le> (seconds_since_midnight now + 60 * 60) mod 86400)
          (classes db) = []"
      unfolding filter_empty_conv by blast
    with u False show ?thesis by (simp only: sort_key_simps take.simps if_False)
  qed
qed

lemma take_1_sort_key_Nil: "(take 1 (sort_key f xs) = []) = (xs = [])"
  by (cases "sort_key f xs") (auto simp: sort_key_def [symmetric] dest: arg_cong [of _ _ length])

lemma take_1_sort_key_Cons:
  assumes "take 1 (sort_key f xs) = c # cs"
  shows "cs = [] \<and> c \<in> set xs \<and> (\<forall>x \<in> set xs. f c \<le> f x)"
proof -
  from assms obtain rest where r: "sort_key f xs = c # rest" and cs: "cs = []"
    by (cases "sort_key f xs") auto
  have "set (c # rest) = set xs" using r [symmetric] by simp
  moreover have "sorted (map f (c # rest))" using r [symmetric] by simp
  ultimately show ?thesis using cs by auto
qed


text \<open>
  For times of day below 24 hours and dates with a four-digit year, the handler answers
  with the earliest-starting class in progress; when there is none, it answers with the
  earliest class that starts within the hour, provided the hour ends before midnight, and
  with no upcoming class otherwise.
\<close>

lemma current_class_resolution:
  assumes "plausible_now now" "list_all plausible_class (classes db)"
  shows "get_terminal_current_class False now db =
     json 200
       (case take 1 (sort_key start_time (filter (in_progress now) (classes db))) of
          c # _ \<Rightarrow>
            has_current_class (select_class c) (toTimeString_slice_0_8 now) (js_date_text now)
        | [] \<Rightarrow>
            no_current_class
              (if seconds_since_midnight now + 60 * 60 < 86400 then
                 (case take 1 (sort_key start_time
                                 (filter (starts_within_hour now) (classes db))) of
                    u # _ \<Rightarrow> Some (select_class u)
                  | [] \<Rightarrow> None)
               else None)
              (toTimeString_slice_0_8 now) (js_date_text now))"
  unfolding get_terminal_current_class_def Let_def
    current_classes_numeric [OF assms] upcoming_classes_numeric [OF assms]
  by (simp split: list.splits)

text \<open>
  So the class the handler reports as current is in progress and no class in progress
  starts before it; the handler reports no current class exactly when no class is in
  progress; and an upcoming class it reports starts within the hour, before every other
  class that does.
\<close>

lemma current_class_is_earliest:
  assumes "plausible_now now" "list_all plausible_class (classes db)"
    and "get_terminal_current_class False now db = json 200 (has_current_class v t d)"
  shows "\<exists>c \<in> set (classes db). v = select_class c \<and> in_progress now c \<and>
           (\<forall>c' \<in> set (classes db). in_progress now c' \<longrightarrow> start_time c \<le> start_time c')"
proof -
  from assms(3) obtain c cs
    where sel: "take 1 (sort_key start_time (filter (in_progress now) (classes db))) = c # cs"
      and v: "v = select_class c"
    unfolding current_class_resolution [OF assms(1,2)]
    by (auto split: list.splits)
  from take_1_sort_key_Cons [OF sel]
  have "c \<in> set (filter (in_progress now) (classes db))"
    and "\<forall>x \<in> set (filter (in_progress now) (classes db)). start_time c \<le> start_time x"
    by simp_all
  with v show ?thesis by auto
qed

lemma no_current_class_iff:
  assumes "plausible_now now" "list_all plausible_class (classes db)"
  shows "(\<exists>u t d. get_terminal_current_class False now db = json 200 (no_current_class u t d)) =
         (\<forall>c \<in> set (classes db). \<not> in_progress now c)"
proof -
  have "(take 1 (sort_key start_time (filter (in_progress now) (classes db))) = []) =
        (\<forall>c \<in> set (classes db). \<not> in_progress now c)"
    by (simp only: take_1_sort_key_Nil filter_empty_conv)
  then show ?thesis
    unfolding current_class_resolution [OF assms]
    by (auto split: list.splits)
qed

lemma upcoming_class_is_earliest:
  assumes "plausible_now now" "list_all plausible_class (classes db)"
    and "get_terminal_current_class False now db = json 200 (no_current_class (Some v) t d)"
  shows "seconds_since_midnight now + 60 * 60 < 86400 \<and>
         (\<exists>c \<in> set (classes db). v = select_class c \<and> starts_within_hour now c \<and>
           (\<forall>c' \<in> set (classes db). starts_within_hour now c' \<longrightarrow> start_time c \<le> start_time c'))"
proof -
  from assms(3) have early: "seconds_since_midnight now + 60 * 60 < 86400"
    unfolding current_class_resolution [OF assms(1,2)]
    by (auto split: list.splits if_splits)
  with assms(3) obtain c cs
    where sel: "take 1 (sort_key start_time (filter (starts_within_hour now) (classes db))) = c # cs"
      and v: "v = select_class c"
    unfolding current_class_resolution [OF assms(1,2)]
    by (auto split: list.splits)
  from take_1_sort_key_Cons [OF sel]
  have "c \<in> set (filter (starts_within_hour now) (classes db))"
    and "\<forall>x \<in> set (filter (starts_within_hour now) (classes db)). start_time c \<le> start_time x"
    by simp_all
  with v early show ?thesis by auto
qed

subsection \<open>Concrete runs\<close>

lemmas eval_current_class =
  get_terminal_current_class_def toTimeString_slice_0_8_def plus_one_hour_def js_date_text_def
  current_classes_def upcoming_classes_def DATE_FORMAT_def TIME_FORMAT_def clock_text_def
  padStart_def select_class_def eval_digits Let_def

lemma current_class_at_0915:
  "get_terminal_current_class False morning night_db =
   json 200 (has_current_class
     \<lparr>view_class_id = 1, view_class_name = ''Mathematics 101'', view_date = ''2024-03-01'',
      view_start_time = ''09:00:00'', view_end_time = ''10:30:00''\<rparr> ''09:15:00'' ''2024-03-01'')"
  by (simp add: eval_current_class night_db_def demo_db_def demo_class_def night_class_def
      morning_def)

lemma upcoming_class_at_0830:
  "get_terminal_current_class False early_morning night_db =
   json 200 (no_current_class (Some
     \<lparr>view_class_id = 1, view_class_name = ''Mathematics 101'', view_date = ''2024-03-01'',
      view_start_time = ''09:00:00'', view_end_time = ''10:30:00''\<rparr>) ''08:30:00'' ''2024-03-01'')"
  by (simp add: eval_current_class night_db_def demo_db_def demo_class_def night_class_def
      early_morning_def)

text \<open>
  Claim C4. The claim has the upcoming lookup return the earliest class of the same local
  date that starts strictly after \<open>now\<close> and at most 60 minutes after it. At 23:30 on
  2024-03-01, with no class in progress, the class of that date that starts at 23:45 is
  such a class, and the handler answers that there is no upcoming class: the upper bound
  of the lookup is the time of day one hour later, 00:30:00, which is before every start
  time after 23:30.
\<close>

theorem upcoming_class_missed_before_midnight:
  "get_terminal_current_class False late_evening night_db =
     json 200 (no_current_class None ''23:30:00'' ''2024-03-01'') \<and>
   class_date night_class = local_date late_evening \<and>
   seconds_since_midnight late_evening < start_time night_class \<and>
   start_time night_class \<le> seconds_since_midnight late_evening + 60 * 60"
  by (simp add: eval_current_class night_db_def demo_db_def demo_class_def night_class_def
      late_evening_def local_date_def)

end
